theory Spec2Isabelle
  imports Main "HOL-Library.Sublist" "HOL-Library.AList"
begin

section \<open>JavaScript strings\<close>

text \<open>
  A value of type \<^typ>\<open>string\<close> stands for the JavaScript string with the same code
  units; every code unit of a modelled string is below 256.  The primitives below are
  the ones the provider calls on its strings: \<^verbatim>\<open>includes\<close>, \<^verbatim>\<open>toLowerCase\<close>,
  \<^verbatim>\<open>trim\<close>, the length, and the rendering of a number inside a template literal.
\<close>

text \<open>\<^verbatim>\<open>s.includes(sub)\<close>: \<^verbatim>\<open>sub\<close> occurs in \<^verbatim>\<open>s\<close> as a contiguous run.\<close>

fun str_includes :: "string \<Rightarrow> string \<Rightarrow> bool" where
  "str_includes [] sub = (sub = [])"
| "str_includes (c # cs) sub = (prefix sub (c # cs) \<or> str_includes cs sub)"

text \<open>
  \<^verbatim>\<open>toLowerCase\<close> on code units below 256: the letters A-Z and the Latin-1 capitals
  (0xC0-0xDE without the multiplication sign 0xD7) move up by 32.
\<close>

definition lower_char :: "char \<Rightarrow> char" where
  "lower_char c =
     (let n = (of_char c :: nat) in
      if (65 \<le> n \<and> n \<le> 90) \<or> (192 \<le> n \<and> n \<le> 222 \<and> n \<noteq> 215)
      then char_of (n + 32) else c)"

definition toLowerCase :: "string \<Rightarrow> string" where
  "toLowerCase s = map lower_char s"

text \<open>
  \<^verbatim>\<open>trim\<close> removes white space and line terminators at both ends; below 256 these
  are TAB, LF, VT, FF, CR, SPACE and the no-break space 0xA0.
\<close>

definition js_space :: "char \<Rightarrow> bool" where
  "js_space c = ((of_char c :: nat) \<in> {9, 10, 11, 12, 13, 32, 160})"

definition trim :: "string \<Rightarrow> string" where
  "trim s = rev (dropWhile js_space (rev (dropWhile js_space s)))"

text \<open>A non-negative integer inside a template literal is written in decimal.\<close>

definition digit_char :: "nat \<Rightarrow> char" where
  "digit_char d = ''0123456789'' ! (d mod 10)"

function show_nat :: "nat \<Rightarrow> string" where
  "show_nat n = (if n < 10 then [digit_char n] else show_nat (n div 10) @ [digit_char n])"
  by pat_completeness auto
termination
  by (relation "measure id") auto

declare show_nat.simps [simp del]

text \<open>An exit code is a number or \<^verbatim>\<open>null\<close>; the template literal prints the latter as \<^verbatim>\<open>null\<close>.\<close>

definition show_code :: "nat option \<Rightarrow> string" where
  "show_code c = (case c of None \<Rightarrow> ''null'' | Some n \<Rightarrow> show_nat n)"

text \<open>\<^verbatim>\<open>Buffer.toString('hex')\<close>: two lower-case hexadecimal digits per byte.\<close>

definition hex_digit :: "nat \<Rightarrow> char" where
  "hex_digit d = ''0123456789abcdef'' ! (d mod 16)"

definition hex_byte :: "char \<Rightarrow> string" where
  "hex_byte b = [hex_digit ((of_char b :: nat) div 16), hex_digit (of_char b :: nat)]"

definition to_hex :: "string \<Rightarrow> string" where
  "to_hex bytes = concat (map hex_byte bytes)"

text \<open>
  A thrown value: the \<^verbatim>\<open>code\<close> property (set by Node on a failed spawn, as in
  \<^verbatim>\<open>ENOENT\<close>) and the message.
\<close>

datatype js_error = JsError (err_code: "string option") (err_message: string)

definition new_Error :: "string \<Rightarrow> js_error" where
  "new_Error msg = JsError None msg"

section \<open>\<^verbatim>\<open>JSON.parse\<close>\<close>

text \<open>
  \<^verbatim>\<open>JSON.parse\<close> is a builtin of the language, modelled from the JSON grammar
  (ECMA-404) as a pushdown recogniser that reads one character at a time and builds
  the value.  String values are lists of UTF-16 code units, since a \<^verbatim>\<open>\uXXXX\<close>
  escape can denote any of them; a number keeps its lexeme (its conversion to a
  double is not modelled); an object keeps its members in source order, duplicates
  included (property lookup takes the last one).
\<close>

type_synonym code_units = "nat list"

datatype json =
    JNull
  | JBool bool
  | JNumber string
  | JString code_units
  | JArray "json list"
  | JObject "(code_units \<times> json) list"

datatype frame =
    ArrayFrame "json list"
  | ObjectFrame "(code_units \<times> json) list" "code_units option"

datatype expect =
    ExpValue
  | ExpValueOrClose
  | ExpKeyOrClose
  | ExpKey
  | ExpColon
  | ExpCommaOrClose
  | ExpEnd json

datatype numstate = NMinus | NZero | NInt | NDot | NFrac | NExp | NExpSign | NExpDigits

datatype numres = NCont numstate | NStop | NBad

datatype lexmode =
    Idle
  | InString code_units
  | InEscape code_units
  | InHex code_units "nat list"
  | InNumber string numstate
  | InLiteral string json

type_synonym pstate = "lexmode \<times> expect \<times> frame list"

definition json_space :: "char \<Rightarrow> bool" where
  "json_space c = (c \<in> set [CHR 0x20, CHR 0x09, CHR 0x0A, CHR 0x0D])"

definition is_digit :: "char \<Rightarrow> bool" where
  "is_digit c = (c \<in> set ''0123456789'')"

definition is_digit19 :: "char \<Rightarrow> bool" where
  "is_digit19 c = (c \<in> set ''123456789'')"

definition hex_val :: "char \<Rightarrow> nat option" where
  "hex_val c =
     (if c \<in> set ''0123456789'' then Some (of_char c - 48)
      else if c \<in> set ''abcdef'' then Some (of_char c - 87)
      else if c \<in> set ''ABCDEF'' then Some (of_char c - 55)
      else None)"

definition escape_unit :: "char \<Rightarrow> nat option" where
  "escape_unit c =
     (if c = CHR 0x22 then Some 0x22
      else if c = CHR 0x5C then Some 0x5C
      else if c = CHR ''/'' then Some 0x2F
      else if c = CHR ''b'' then Some 8
      else if c = CHR ''f'' then Some 12
      else if c = CHR ''n'' then Some 10
      else if c = CHR ''r'' then Some 13
      else if c = CHR ''t'' then Some 9
      else None)"

fun value_pos :: "expect \<Rightarrow> bool" where
  "value_pos ExpValue = True"
| "value_pos ExpValueOrClose = True"
| "value_pos _ = False"

fun key_pos :: "expect \<Rightarrow> bool" where
  "key_pos ExpKeyOrClose = True"
| "key_pos ExpKey = True"
| "key_pos _ = False"

fun close_object_pos :: "expect \<Rightarrow> bool" where
  "close_object_pos ExpKeyOrClose = True"
| "close_object_pos ExpCommaOrClose = True"
| "close_object_pos _ = False"

fun close_array_pos :: "expect \<Rightarrow> bool" where
  "close_array_pos ExpValueOrClose = True"
| "close_array_pos ExpCommaOrClose = True"
| "close_array_pos _ = False"

text \<open>A finished value goes to the enclosing container, or ends the text.\<close>

fun deliver :: "json \<Rightarrow> frame list \<Rightarrow> pstate option" where
  "deliver v [] = Some (Idle, ExpEnd v, [])"
| "deliver v (ArrayFrame xs # st) = Some (Idle, ExpCommaOrClose, ArrayFrame (v # xs) # st)"
| "deliver v (ObjectFrame ms (Some k) # st) =
     Some (Idle, ExpCommaOrClose, ObjectFrame ((k, v) # ms) None # st)"
| "deliver v (ObjectFrame ms None # st) = None"

definition put_value :: "json \<Rightarrow> expect \<Rightarrow> frame list \<Rightarrow> pstate option" where
  "put_value v e st = (if value_pos e then deliver v st else None)"

definition put_string :: "code_units \<Rightarrow> expect \<Rightarrow> frame list \<Rightarrow> pstate option" where
  "put_string s e st =
     (if value_pos e then deliver (JString s) st
      else if key_pos e then
        (case st of
           ObjectFrame ms None # st' \<Rightarrow> Some (Idle, ExpColon, ObjectFrame ms (Some s) # st')
         | _ \<Rightarrow> None)
      else None)"

definition close_object :: "expect \<Rightarrow> frame list \<Rightarrow> pstate option" where
  "close_object e st =
     (if close_object_pos e then
        (case st of
           ObjectFrame ms None # st' \<Rightarrow> deliver (JObject (rev ms)) st'
         | _ \<Rightarrow> None)
      else None)"

definition close_array :: "expect \<Rightarrow> frame list \<Rightarrow> pstate option" where
  "close_array e st =
     (if close_array_pos e then
        (case st of
           ArrayFrame xs # st' \<Rightarrow> deliver (JArray (rev xs)) st'
         | _ \<Rightarrow> None)
      else None)"

definition comma :: "expect \<Rightarrow> frame list \<Rightarrow> pstate option" where
  "comma e st =
     (case e of
        ExpCommaOrClose \<Rightarrow>
          (case st of
             ArrayFrame xs # st' \<Rightarrow> Some (Idle, ExpValue, st)
           | ObjectFrame ms k # st' \<Rightarrow> Some (Idle, ExpKey, st)
           | [] \<Rightarrow> None)
      | _ \<Rightarrow> None)"

definition colon :: "expect \<Rightarrow> frame list \<Rightarrow> pstate option" where
  "colon e st = (case e of ExpColon \<Rightarrow> Some (Idle, ExpValue, st) | _ \<Rightarrow> None)"

definition start_scalar :: "char \<Rightarrow> expect \<Rightarrow> frame list \<Rightarrow> pstate option" where
  "start_scalar c e st =
     (if \<not> value_pos e then None
      else if c = CHR ''-'' then Some (InNumber [c] NMinus, e, st)
      else if c = CHR ''0'' then Some (InNumber [c] NZero, e, st)
      else if is_digit19 c then Some (InNumber [c] NInt, e, st)
      else if c = CHR ''t'' then Some (InLiteral ''rue'' (JBool True), e, st)
      else if c = CHR ''f'' then Some (InLiteral ''alse'' (JBool False), e, st)
      else if c = CHR ''n'' then Some (InLiteral ''ull'' JNull, e, st)
      else None)"

definition step_idle :: "char \<Rightarrow> expect \<Rightarrow> frame list \<Rightarrow> pstate option" where
  "step_idle c e st =
     (if json_space c then Some (Idle, e, st)
      else if c = CHR 0x22 then
        (if value_pos e \<or> key_pos e then Some (InString [], e, st) else None)
      else if c = CHR ''{'' then
        (if value_pos e then Some (Idle, ExpKeyOrClose, ObjectFrame [] None # st) else None)
      else if c = CHR ''['' then
        (if value_pos e then Some (Idle, ExpValueOrClose, ArrayFrame [] # st) else None)
      else if c = CHR ''}'' then close_object e st
      else if c = CHR '']'' then close_array e st
      else if c = CHR '','' then comma e st
      else if c = CHR '':'' then colon e st
      else start_scalar c e st)"

text \<open>The number grammar: \<^verbatim>\<open>-? (0 | [1-9][0-9]*) (. [0-9]+)? ([eE] [+-]? [0-9]+)?\<close>.\<close>

fun num_step :: "numstate \<Rightarrow> char \<Rightarrow> numres" where
  "num_step NMinus c =
     (if c = CHR ''0'' then NCont NZero else if is_digit19 c then NCont NInt else NBad)"
| "num_step NZero c =
     (if c = CHR ''.'' then NCont NDot
      else if c = CHR ''e'' \<or> c = CHR ''E'' then NCont NExp else NStop)"
| "num_step NInt c =
     (if is_digit c then NCont NInt
      else if c = CHR ''.'' then NCont NDot
      else if c = CHR ''e'' \<or> c = CHR ''E'' then NCont NExp else NStop)"
| "num_step NDot c = (if is_digit c then NCont NFrac else NBad)"
| "num_step NFrac c =
     (if is_digit c then NCont NFrac
      else if c = CHR ''e'' \<or> c = CHR ''E'' then NCont NExp else NStop)"
| "num_step NExp c =
     (if c = CHR ''+'' \<or> c = CHR ''-'' then NCont NExpSign
      else if is_digit c then NCont NExpDigits else NBad)"
| "num_step NExpSign c = (if is_digit c then NCont NExpDigits else NBad)"
| "num_step NExpDigits c = (if is_digit c then NCont NExpDigits else NStop)"

fun num_complete :: "numstate \<Rightarrow> bool" where
  "num_complete NZero = True"
| "num_complete NInt = True"
| "num_complete NFrac = True"
| "num_complete NExpDigits = True"
| "num_complete _ = False"

definition hex4 :: "nat list \<Rightarrow> nat" where
  "hex4 ds = foldl (\<lambda>a d. 16 * a + d) 0 ds"

fun step :: "pstate \<Rightarrow> char \<Rightarrow> pstate option" where
  "step (Idle, e, st) c = step_idle c e st"
| "step (InString acc, e, st) c =
     (if c = CHR 0x22 then put_string (rev acc) e st
      else if c = CHR 0x5C then Some (InEscape acc, e, st)
      else if (of_char c :: nat) < 32 then None
      else Some (InString (of_char c # acc), e, st))"
| "step (InEscape acc, e, st) c =
     (case escape_unit c of
        Some u \<Rightarrow> Some (InString (u # acc), e, st)
      | None \<Rightarrow> if c = CHR ''u'' then Some (InHex acc [], e, st) else None)"
| "step (InHex acc ds, e, st) c =
     (case hex_val c of
        None \<Rightarrow> None
      | Some d \<Rightarrow>
          if length ds = 3 then Some (InString (hex4 (ds @ [d]) # acc), e, st)
          else Some (InHex acc (ds @ [d]), e, st))"
| "step (InNumber lx ns, e, st) c =
     (case num_step ns c of
        NCont ns' \<Rightarrow> Some (InNumber (c # lx) ns', e, st)
      | NBad \<Rightarrow> None
      | NStop \<Rightarrow>
          (case put_value (JNumber (rev lx)) e st of
             None \<Rightarrow> None
           | Some (m, e', st') \<Rightarrow> step_idle c e' st'))"
| "step (InLiteral rest v, e, st) c =
     (case rest of
        [] \<Rightarrow> None
      | r # rs \<Rightarrow>
          if c \<noteq> r then None
          else if rs = [] then put_value v e st
          else Some (InLiteral rs v, e, st))"

fun run :: "pstate option \<Rightarrow> string \<Rightarrow> pstate option" where
  "run p [] = p"
| "run None (c # cs) = None"
| "run (Some p) (c # cs) = run (step p c) cs"

fun finish :: "pstate \<Rightarrow> json option" where
  "finish (Idle, ExpEnd v, []) = Some v"
| "finish (InNumber lx ns, e, st) =
     (if num_complete ns then
        (case put_value (JNumber (rev lx)) e st of
           Some (Idle, ExpEnd v, []) \<Rightarrow> Some v
         | _ \<Rightarrow> None)
      else None)"
| "finish _ = None"

definition syntax_error :: js_error where
  "syntax_error = JsError None ''SyntaxError: invalid JSON text''"

definition JSON_parse :: "string \<Rightarrow> js_error + json" where
  "JSON_parse s =
     (case run (Some (Idle, ExpValue, [])) s of
        None \<Rightarrow> Inl syntax_error
      | Some p \<Rightarrow> (case finish p of None \<Rightarrow> Inl syntax_error | Some v \<Rightarrow> Inr v))"

definition units :: "string \<Rightarrow> code_units" where
  "units s = map of_char s"

section \<open>The provider: \<^verbatim>\<open>gemini-cli.ts\<close>\<close>

subsection \<open>Observable effects\<close>

text \<open>
  Everything the provider does to its surroundings, in the order it does it: console
  output, the child process, the dialogs of the host and the chunks handed to the
  consumer of the stream.
\<close>

datatype api_chunk =
    TextChunk string
  | UsageChunk nat nat nat nat

datatype effect =
    ConsoleLog string
  | ConsoleWarn string
  | ConsoleError string js_error
  | Spawn string "string list" "(string \<times> string) list"
  | SetTimeout nat
  | ClearTimeout
  | StdinWrite string
  | StdinEnd
  | Kill string
  | Yield api_chunk
  | GetSession bool
  | ShowInformationMessage string "string list"
  | ShowWarningMessage string "string list"
  | Uncaught js_error

definition logInfo :: "string \<Rightarrow> string \<Rightarrow> effect" where
  "logInfo correlationId message =
     ConsoleLog (''[GeminiCLI:'' @ correlationId @ ''] INFO: '' @ message)"

definition logWarning :: "string \<Rightarrow> string \<Rightarrow> effect" where
  "logWarning correlationId message =
     ConsoleWarn (''[GeminiCLI:'' @ correlationId @ ''] WARN: '' @ message)"

definition logError :: "string \<Rightarrow> string \<Rightarrow> js_error \<Rightarrow> effect" where
  "logError correlationId message error =
     ConsoleError (''[GeminiCLI:'' @ correlationId @ ''] ERROR: '' @ message) error"

subsection \<open>Classification of one chunk: \<^verbatim>\<open>parseCliOutput\<close>\<close>

datatype parsed_output =
    Reasoning string
  | ToolCall string bool
  | ConfirmationRequest string
  | Structured string json
  | TextOutput string

text \<open>The \<^verbatim>\<open>type\<close>, \<^verbatim>\<open>content\<close> and \<^verbatim>\<open>requiresConfirmation\<close> properties of the result.\<close>

fun output_type :: "parsed_output \<Rightarrow> string" where
  "output_type (Reasoning t) = ''reasoning''"
| "output_type (ToolCall t d) = ''tool_call''"
| "output_type (ConfirmationRequest t) = ''confirmation_request''"
| "output_type (Structured t v) = ''structured''"
| "output_type (TextOutput t) = ''text''"

fun output_content :: "parsed_output \<Rightarrow> string" where
  "output_content (Reasoning t) = t"
| "output_content (ToolCall t d) = t"
| "output_content (ConfirmationRequest t) = t"
| "output_content (Structured t v) = t"
| "output_content (TextOutput t) = t"

fun requiresConfirmation :: "parsed_output \<Rightarrow> bool" where
  "requiresConfirmation (ToolCall t d) = d"
| "requiresConfirmation _ = False"

definition dangerousActions :: "string list" where
  "dangerousActions =
     [''delete'', ''remove'', ''rm '', ''DROP'', ''truncate'', ''format'', ''sudo'',
      ''chmod 777'', ''> /dev/null'']"

definition requiresUserConfirmation :: "string \<Rightarrow> bool" where
  "requiresUserConfirmation text =
     list_ex (\<lambda>action. str_includes (toLowerCase text) (toLowerCase action)) dangerousActions"

text \<open>
  \<^verbatim>\<open>text.match(/\{[\s\S]*\}/)\<close>: the leftmost match starts at the first opening
  brace, and the greedy star runs to the last closing brace after it.
\<close>

definition jsonMatch :: "string \<Rightarrow> string option" where
  "jsonMatch text =
     (let from_open = dropWhile (\<lambda>c. c \<noteq> CHR ''{'') text;
          m = rev (dropWhile (\<lambda>c. c \<noteq> CHR ''}'') (rev from_open))
      in if m = [] then None else Some m)"

text \<open>The body of the \<^verbatim>\<open>try\<close> block, up to its \<^verbatim>\<open>return\<close>.\<close>

definition try_structured :: "string \<Rightarrow> js_error + json option" where
  "try_structured text =
     (case jsonMatch text of
        None \<Rightarrow> Inr None
      | Some m \<Rightarrow> (case JSON_parse m of Inl e \<Rightarrow> Inl e | Inr parsed \<Rightarrow> Inr (Some parsed)))"

definition parseCliOutput :: "string \<Rightarrow> string \<Rightarrow> effect list \<times> (js_error + parsed_output)" where
  "parseCliOutput text correlationId =
     (if str_includes text ''Thinking:'' \<or> str_includes text ''Reasoning:'' then
        ([logInfo correlationId ''Detected reasoning phase in CLI output''],
         Inr (Reasoning text))
      else if str_includes text ''Tool:'' \<or> str_includes text ''Action:'' then
        ([logInfo correlationId ''Detected tool call in CLI output''],
         Inr (ToolCall text (requiresUserConfirmation text)))
      else if str_includes text ''Confirm:'' \<or> str_includes text ''Proceed?''
              \<or> str_includes text ''[Y/n]'' then
        ([logInfo correlationId ''Detected confirmation request in CLI output''],
         Inr (ConfirmationRequest text))
      else
        (case try_structured text of
           Inr (Some parsed) \<Rightarrow>
             ([logInfo correlationId ''Detected structured JSON output''],
              Inr (Structured text parsed))
         | Inr None \<Rightarrow> ([], Inr (TextOutput text))
         | Inl error \<Rightarrow> ([], Inr (TextOutput text))))"

subsection \<open>Configuration\<close>

record cli_options =
  geminiCliPath :: "string option"
  apiModelId :: "string option"
  timeout :: "nat option"
  useJsonMode :: "bool option"
  enableInteractiveMode :: "bool option"
  requireConfirmation :: "bool option"

text \<open>\<^verbatim>\<open>x || d\<close> on an optional string or number: absent, empty and zero are falsy.\<close>

definition or_string :: "string option \<Rightarrow> string \<Rightarrow> string" where
  "or_string x d = (case x of None \<Rightarrow> d | Some s \<Rightarrow> if s = [] then d else s)"

definition or_number :: "nat option \<Rightarrow> nat \<Rightarrow> nat" where
  "or_number x d = (case x of None \<Rightarrow> d | Some n \<Rightarrow> if n = 0 then d else n)"

definition buildCliArguments :: "cli_options \<Rightarrow> string list" where
  "buildCliArguments opts =
     (if useJsonMode opts = Some True then [''--json''] else [])
     @ (if enableInteractiveMode opts \<noteq> Some False then [''--interactive''] else [])
     @ (if requireConfirmation opts \<noteq> Some False then [''--confirm-actions''] else [])
     @ (case apiModelId opts of
          None \<Rightarrow> []
        | Some m \<Rightarrow> if m = [] then [] else [''--model'', m])"

definition estimateTokens :: "string \<Rightarrow> nat" where
  "estimateTokens text = (length text + 3) div 4"

subsection \<open>The child process and \<^verbatim>\<open>executeStatefulCli\<close>\<close>

text \<open>
  What the child process and the timer do, in the order the event loop delivers it:
  data on either pipe, the timer firing, and at last \<^verbatim>\<open>close\<close> (with the exit code,
  \<^verbatim>\<open>null\<close> when a signal ended the process) or \<^verbatim>\<open>error\<close>.  The process is
  spawned with its three pipes, so the handlers for standard input, output and error
  are installed; \<^verbatim>\<open>spawn\<close> reports a failure through the \<^verbatim>\<open>error\<close> event; and the
  consumer reads the stream to its end.  The timeout is a whole number of milliseconds.
\<close>

datatype proc_event = StdoutData string | StderrData string | TimerFired

datatype proc_end = Close "nat option" | ProcError js_error

record cli_state =
  output_str :: string
  errorOutput :: string
  isComplete :: bool
  streamChunks :: "api_chunk list"
  effects :: "effect list"

definition emit :: "effect list \<Rightarrow> cli_state \<Rightarrow> cli_state" where
  "emit es s = s\<lparr>effects := effects s @ es\<rparr>"

definition onStdoutData :: "string \<Rightarrow> string \<Rightarrow> cli_state \<Rightarrow> cli_state" where
  "onStdoutData correlationId text s =
     (let s1 = s\<lparr>output_str := output_str s @ text\<rparr> in
      if isComplete s1 then s1
      else
        (case parseCliOutput text correlationId of
           (logs, Inl error) \<Rightarrow> emit (logs @ [Uncaught error]) s1
         | (logs, Inr parsedOutput) \<Rightarrow>
             (let s2 = (emit logs s1)\<lparr>streamChunks := streamChunks s1 @ [TextChunk text]\<rparr>;
                  s3 = (if output_type parsedOutput = ''confirmation_request''
                        then emit [logInfo correlationId
                               ''Confirmation request detected - would pause for user input''] s2
                        else s2)
              in if output_type parsedOutput = ''tool_call'' \<and> requiresConfirmation parsedOutput
                 then emit [logWarning correlationId
                        ''Potentially dangerous tool call detected''] s3
                 else s3)))"

definition onStderrData :: "string \<Rightarrow> string \<Rightarrow> cli_state \<Rightarrow> cli_state" where
  "onStderrData correlationId errorText s =
     emit [logWarning correlationId (''CLI stderr: '' @ errorText)]
       (s\<lparr>errorOutput := errorOutput s @ errorText\<rparr>)"

definition onTimeout :: "string \<Rightarrow> nat \<Rightarrow> cli_state \<Rightarrow> cli_state" where
  "onTimeout correlationId ms s =
     emit [logWarning correlationId (''CLI process timeout after '' @ show_nat ms @ ''ms''),
           Kill ''SIGTERM''] s"

fun handle :: "string \<Rightarrow> nat \<Rightarrow> cli_state \<Rightarrow> proc_event \<Rightarrow> cli_state" where
  "handle correlationId ms s (StdoutData text) = onStdoutData correlationId text s"
| "handle correlationId ms s (StderrData text) = onStderrData correlationId text s"
| "handle correlationId ms s TimerFired = onTimeout correlationId ms s"

definition spawn_env :: "cli_options \<Rightarrow> (string \<times> string) list \<Rightarrow> string \<Rightarrow> (string \<times> string) list" where
  "spawn_env opts process_env correlationId =
     AList.update ''GEMINI_CLI_MODE''
       (if useJsonMode opts = Some True then ''json'' else ''interactive'')
       (AList.update ''GEMINI_CLI_CORRELATION_ID'' correlationId process_env)"

definition start_state :: "cli_options \<Rightarrow> (string \<times> string) list \<Rightarrow> string \<Rightarrow> string \<Rightarrow> cli_state" where
  "start_state opts process_env prompt correlationId =
     \<lparr>output_str = [], errorOutput = [], isComplete = False, streamChunks = [],
      effects =
        [logInfo correlationId
           (''Starting CLI execution with path: '' @ or_string (geminiCliPath opts) ''gemini''),
         Spawn (or_string (geminiCliPath opts) ''gemini'') (buildCliArguments opts)
           (spawn_env opts process_env correlationId),
         SetTimeout (or_number (timeout opts) 60000),
         StdinWrite (prompt @ [CHR 0x0A]),
         StdinEnd]\<rparr>"

text \<open>
  After the process has ended: the checks on the exit code and on the collected
  output, the two chunks of a successful run, and the \<^verbatim>\<open>catch\<close> block that logs and
  rethrows.  The result is the list of effects and the error thrown, if any.
\<close>

definition after_close :: "string \<Rightarrow> string \<Rightarrow> nat option \<Rightarrow> cli_state \<Rightarrow> effect list \<times> js_error option" where
  "after_close prompt correlationId exitCode s =
     (if exitCode \<noteq> Some 0 then
        (let error = new_Error (''Gemini CLI exited with code '' @ show_code exitCode
                        @ ''. Error: '' @ errorOutput s)
         in (effects s @ [logError correlationId ''CLI execution failed'' error], Some error))
      else if trim (output_str s) = [] then
        (let error = new_Error ''Gemini CLI produced no output''
         in (effects s @ [logError correlationId ''CLI execution failed'' error], Some error))
      else
        (effects s
           @ [Yield (TextChunk (output_str s)),
              Yield (UsageChunk (estimateTokens prompt) (estimateTokens (output_str s)) 0 0),
              logInfo correlationId ''CLI execution completed successfully''],
         None))"

definition executeStatefulCli ::
  "cli_options \<Rightarrow> (string \<times> string) list \<Rightarrow> string \<Rightarrow> string \<Rightarrow> proc_event list \<Rightarrow> proc_end
     \<Rightarrow> effect list \<times> js_error option" where
  "executeStatefulCli opts process_env prompt correlationId events ending =
     (let s = foldl (handle correlationId (or_number (timeout opts) 60000))
                (start_state opts process_env prompt correlationId) events
      in case ending of
           Close code \<Rightarrow>
             after_close prompt correlationId code
               ((emit [ClearTimeout,
                       logInfo correlationId
                         (''CLI process completed with exit code: '' @ show_code code)] s)
                \<lparr>isComplete := True\<rparr>)
         | ProcError error \<Rightarrow>
             (effects s @ [ClearTimeout, logError correlationId ''CLI process error'' error,
                           logError correlationId ''CLI execution failed'' error],
              Some error))"

text \<open>The chunks the consumer of the stream receives, in order.\<close>

fun yielded :: "effect list \<Rightarrow> api_chunk list" where
  "yielded [] = []"
| "yielded (Yield c # es) = c # yielded es"
| "yielded (e # es) = yielded es"

text \<open>What the process wrote to either pipe over the whole run.\<close>

fun stdout_of :: "proc_event list \<Rightarrow> string" where
  "stdout_of [] = []"
| "stdout_of (StdoutData t # es) = t @ stdout_of es"
| "stdout_of (e # es) = stdout_of es"

fun stderr_of :: "proc_event list \<Rightarrow> string" where
  "stderr_of [] = []"
| "stderr_of (StderrData t # es) = t @ stderr_of es"
| "stderr_of (e # es) = stderr_of es"

text \<open>The chunks the process wrote to its standard output, one by one.\<close>

fun stdout_chunks :: "proc_event list \<Rightarrow> string list" where
  "stdout_chunks [] = []"
| "stdout_chunks (StdoutData t # es) = t # stdout_chunks es"
| "stdout_chunks (e # es) = stdout_chunks es"

subsection \<open>\<^verbatim>\<open>handleUserConfirmation\<close>\<close>

text \<open>
  The answer of the modal dialog is the label of the button pressed, nothing when the
  dialog is dismissed, or an error.  No caller of this method exists in the provider.
\<close>

definition handleUserConfirmation ::
  "string \<Rightarrow> string \<Rightarrow> js_error + string option \<Rightarrow> effect list \<times> bool" where
  "handleUserConfirmation text correlationId answer =
     (let dialog =
            ShowWarningMessage
              (''The AI wants to perform an action that may modify your system:''
                 @ [CHR 0x0A, CHR 0x0A] @ text @ [CHR 0x0A, CHR 0x0A]
                 @ ''Do you want to proceed?'')
              [''Proceed'', ''Cancel'']
      in case answer of
           Inr choice \<Rightarrow>
             (let approved = (choice = Some ''Proceed'')
              in ([dialog,
                   logInfo correlationId
                     (''User confirmation: '' @ (if approved then ''approved'' else ''denied''))],
                  approved))
         | Inl error \<Rightarrow>
             ([dialog, logError correlationId ''Error getting user confirmation'' error], False))"

subsection \<open>\<^verbatim>\<open>createMessage\<close>\<close>

record session =
  session_id :: string
  accessToken :: string
  account_id :: string
  account_label :: string
  scopes :: "string list"

text \<open>
  What the host answers during \<^verbatim>\<open>ensureAuthentication\<close>: the silent lookup of a
  session, the button pressed in the prompt, and the lookup that may create a session.
\<close>

record auth_host =
  silentSession :: "js_error + session option"
  userChoice :: "string option"
  consentSession :: "js_error + session"

definition auth_failed :: "string \<Rightarrow> effect list \<Rightarrow> js_error \<Rightarrow> effect list \<times> js_error option" where
  "auth_failed correlationId es error =
     (es @ [logError correlationId ''Authentication failed'' error],
      Some (new_Error (''Authentication failed: '' @ err_message error)))"

definition auth_verified :: "string \<Rightarrow> effect list \<Rightarrow> effect list \<times> js_error option" where
  "auth_verified correlationId es = (es @ [logInfo correlationId ''Authentication verified''], None)"

definition ensureAuthentication :: "auth_host \<Rightarrow> string \<Rightarrow> effect list \<times> js_error option" where
  "ensureAuthentication host correlationId =
     (case silentSession host of
        Inl error \<Rightarrow> auth_failed correlationId [GetSession False] error
      | Inr (Some session) \<Rightarrow> auth_verified correlationId [GetSession False]
      | Inr None \<Rightarrow>
          (let es = [GetSession False,
                     ShowInformationMessage
                       ''Gemini CLI requires Google authentication. Would you like to authenticate now?''
                       [''Authenticate'', ''Cancel'']]
           in if userChoice host = Some ''Authenticate'' then
                (case consentSession host of
                   Inl error \<Rightarrow> auth_failed correlationId (es @ [GetSession True]) error
                 | Inr session \<Rightarrow> auth_verified correlationId (es @ [GetSession True]))
              else
                auth_failed correlationId es
                  (new_Error ''Authentication required for Gemini CLI access'')))"

datatype role = User | Assistant

datatype content_block = TextBlock string | OtherBlock

datatype content = Plain string | Blocks "content_block list"

fun join :: "string \<Rightarrow> string list \<Rightarrow> string" where
  "join sep [] = []"
| "join sep [x] = x"
| "join sep (x # y # ys) = x @ sep @ join sep (y # ys)"

fun block_text :: "content_block \<Rightarrow> string" where
  "block_text (TextBlock t) = t"
| "block_text OtherBlock = ''[Non-text content]''"

fun content_text :: "content \<Rightarrow> string" where
  "content_text (Plain t) = t"
| "content_text (Blocks bs) = join '' '' (map block_text bs)"

fun format_message :: "role \<times> content \<Rightarrow> string" where
  "format_message (r, c) =
     (case r of User \<Rightarrow> ''Human'' | Assistant \<Rightarrow> ''Assistant'')
       @ '': '' @ content_text c @ [CHR 0x0A, CHR 0x0A]"

definition formatConversation :: "string \<Rightarrow> (role \<times> content) list \<Rightarrow> string" where
  "formatConversation systemPrompt messages =
     trim ((if systemPrompt \<noteq> [] then ''System: '' @ systemPrompt @ [CHR 0x0A, CHR 0x0A] else [])
           @ concat (map format_message messages))"

definition createUserFriendlyError :: "js_error \<Rightarrow> js_error" where
  "createUserFriendlyError error =
     (if err_code error = Some ''ENOENT'' then
        new_Error ''Gemini CLI not found. Please install the Gemini CLI and ensure it's in your PATH. Visit https://ai.google.dev/gemini-api/docs/cli for installation instructions.''
      else if str_includes (err_message error) ''timeout'' then
        new_Error ''The request timed out. This may happen with complex requests or if the Gemini CLI is unresponsive. Please try again with a simpler request.''
      else if str_includes (err_message error) ''Authentication'' then
        new_Error ''Authentication failed. Please check your Google credentials and try authenticating again.''
      else new_Error (''Gemini CLI error: '' @ err_message error))"

text \<open>
  One invocation of \<^verbatim>\<open>createMessage\<close>.  \<^verbatim>\<open>random\<close> is what \<^verbatim>\<open>randomBytes(8)\<close>
  returns in this invocation; the correlation id is its hexadecimal rendering.  The
  method is wrapped by the decorator \<^verbatim>\<open>withRetry\<close> of the module \<^verbatim>\<open>../retry\<close>, which is
  not among the sources: a retry is another invocation of the method, with the bytes
  the random source returns then.
\<close>

definition correlationId_of :: "string \<Rightarrow> string" where
  "correlationId_of random = to_hex random"

definition createMessage ::
  "cli_options \<Rightarrow> auth_host \<Rightarrow> (string \<times> string) list \<Rightarrow> string \<Rightarrow> string
     \<Rightarrow> (role \<times> content) list \<Rightarrow> proc_event list \<Rightarrow> proc_end \<Rightarrow> effect list \<times> js_error option" where
  "createMessage opts host process_env random systemPrompt messages events ending =
     (let correlationId = correlationId_of random in
      case ensureAuthentication host correlationId of
        (es, Some error) \<Rightarrow>
          (es @ [logError correlationId ''CLI execution failed'' error],
           Some (createUserFriendlyError error))
      | (es, None) \<Rightarrow>
          (case executeStatefulCli opts process_env
                  (formatConversation systemPrompt messages) correlationId events ending of
             (es', None) \<Rightarrow> (es @ es', None)
           | (es', Some error) \<Rightarrow>
               (es @ es' @ [logError correlationId ''CLI execution failed'' error],
                Some (createUserFriendlyError error))))"

text \<open>The calls to \<^verbatim>\<open>spawn\<close> made in a run: executable, arguments, environment.\<close>

fun spawned :: "effect list \<Rightarrow> (string \<times> string list \<times> (string \<times> string) list) list" where
  "spawned [] = []"
| "spawned (Spawn path args env # es) = (path, args, env) # spawned es"
| "spawned (e # es) = spawned es"

text \<open>The confirmation dialogs shown in a run.\<close>

fun confirmations :: "effect list \<Rightarrow> string list" where
  "confirmations [] = []"
| "confirmations (ShowWarningMessage text buttons # es) = text # confirmations es"
| "confirmations (e # es) = confirmations es"

section \<open>The credential provider: \<^verbatim>\<open>GeminiAuthenticationProvider.ts\<close>\<close>

text \<open>
  What the provider finds in its surroundings: the outcome of reading and decoding the
  stored session (typed \<^verbatim>\<open>AuthenticationSession | null\<close> in the source), the
  variable \<^verbatim>\<open>GEMINI_API_KEY\<close>, whether \<^verbatim>\<open>secretStorage.store\<close> rejects
  (it is called at most once in a call of \<^verbatim>\<open>createSession\<close>), how the OAuth
  consent flow ends, and the clock.  The consent flow either rejects its promise before
  anything is stored (the five minutes pass, the local server fails, the callback reports
  an error or lacks the code, the token exchange fails), or the token exchange yields
  tokens, whose access token is present as the source asserts
  (\<^verbatim>\<open>tokens.access_token!\<close>).  Writing to the status bar is taken to succeed.
\<close>

datatype stored_read = GetFailed js_error | NoData | ParseFailed js_error | StoredSession session

record oauth_tokens =
  access_token :: string
  refresh_token :: "string option"

record auth_env =
  stored :: stored_read
  GEMINI_API_KEY :: "string option"
  storeFailure :: "js_error option"
  oauthFlow :: "js_error + oauth_tokens"
  Date_now :: nat

text \<open>
  What the provider does to its surroundings.  \<^verbatim>\<open>SecretStore\<close> is a call of
  \<^verbatim>\<open>secretStorage.store\<close> with the key, the session written and the refresh token
  written beside it, if any; \<^verbatim>\<open>OAuthConsent\<close> is the start of the consent flow
  with the requested scopes.
\<close>

datatype auth_effect =
    StatusBar string
  | SecretStore string session "string option"
  | OAuthConsent "string list"
  | SessionsChanged "session list" "session list" "session list"
  | AuthConsoleError string js_error

definition SCOPES :: "string list" where
  "SCOPES = [''https://www.googleapis.com/auth/generative-language'',
             ''https://www.googleapis.com/auth/cloud-platform'']"

definition updateStatusBar :: "string \<Rightarrow> auth_effect" where
  "updateStatusBar status =
     StatusBar (if status \<noteq> [] then ''$(key) Gemini: '' @ status
                else ''$(key) Gemini: Click to authenticate'')"

definition getStoredSession :: "auth_env \<Rightarrow> auth_effect list \<times> session option" where
  "getStoredSession env =
     (case stored env of
        StoredSession s \<Rightarrow> ([], Some s)
      | NoData \<Rightarrow> ([], None)
      | GetFailed error \<Rightarrow> ([AuthConsoleError ''Error retrieving stored session:'' error], None)
      | ParseFailed error \<Rightarrow> ([AuthConsoleError ''Error retrieving stored session:'' error], None))"

definition isValidSession :: "session \<Rightarrow> bool" where
  "isValidSession session = (accessToken session \<noteq> [])"

definition getSessions :: "auth_env \<Rightarrow> session list" where
  "getSessions env =
     (case snd (getStoredSession env) of
        Some storedSession \<Rightarrow> if isValidSession storedSession then [storedSession] else []
      | None \<Rightarrow> [])"

definition apiKeySession :: "string \<Rightarrow> session" where
  "apiKeySession apiKey =
     \<lparr>session_id = ''gemini-api-key'', accessToken = apiKey, account_id = ''api-key-user'',
      account_label = ''API Key Authentication'', scopes = SCOPES\<rparr>"

text \<open>
  \<^verbatim>\<open>tryApiKeyAuthentication\<close> awaits the write outside any \<^verbatim>\<open>try\<close>: a
  rejected write is thrown to \<^verbatim>\<open>createSession\<close>.
\<close>

definition tryApiKeyAuthentication :: "auth_env \<Rightarrow> auth_effect list \<times> (js_error + session option)" where
  "tryApiKeyAuthentication env =
     (case GEMINI_API_KEY env of
        None \<Rightarrow> ([], Inr None)
      | Some apiKey \<Rightarrow>
          if apiKey = [] then ([], Inr None)
          else ([SecretStore ''gemini-oauth-session'' (apiKeySession apiKey) None],
                case storeFailure env of
                  Some error \<Rightarrow> Inl error
                | None \<Rightarrow> Inr (Some (apiKeySession apiKey))))"

definition tryAdcAuthentication :: "auth_env \<Rightarrow> session option" where
  "tryAdcAuthentication env = None"

text \<open>
  The end of \<^verbatim>\<open>handleCallback\<close>, once the token exchange has yielded tokens: the
  session object is built (\<^verbatim>\<open>oauthSession\<close>, its id made of the time in
  milliseconds), written to the secret storage together with the refresh token, and only
  then is the pending promise resolved with it; a rejected write rejects the promise.
  The reply to the browser and the closing of the local server are left out.
\<close>

definition oauthSession :: "nat \<Rightarrow> oauth_tokens \<Rightarrow> session" where
  "oauthSession ms tokens =
     \<lparr>session_id = ''gemini-oauth-'' @ show_nat ms, accessToken = access_token tokens,
      account_id = ''oauth-user'', account_label = ''Google OAuth'', scopes = SCOPES\<rparr>"

definition handleCallback :: "auth_env \<Rightarrow> oauth_tokens \<Rightarrow> auth_effect list \<times> (js_error + session)" where
  "handleCallback env tokens =
     (let session = oauthSession (Date_now env) tokens
      in ([SecretStore ''gemini-oauth-session'' session (refresh_token tokens)],
          case storeFailure env of
            Some error \<Rightarrow> Inl error
          | None \<Rightarrow> Inr session))"

definition performOAuthFlow :: "auth_env \<Rightarrow> string list \<Rightarrow> auth_effect list \<times> (js_error + session)" where
  "performOAuthFlow env requested =
     (case oauthFlow env of
        Inl error \<Rightarrow> ([OAuthConsent requested], Inl error)
      | Inr tokens \<Rightarrow>
          (let (es, settled) = handleCallback env tokens
           in (OAuthConsent requested # es, settled)))"

definition session_failed :: "auth_effect list \<Rightarrow> js_error \<Rightarrow> auth_effect list \<times> (js_error + session)" where
  "session_failed es error =
     (es @ [updateStatusBar ''Authentication Failed'',
            AuthConsoleError ''Error creating session:'' error],
      Inl (new_Error (''Authentication failed: '' @ err_message error)))"

definition createSession :: "auth_env \<Rightarrow> string list \<Rightarrow> auth_effect list \<times> (js_error + session)" where
  "createSession env requested =
     (let (es0, existingSession) = getStoredSession env;
          es1 = updateStatusBar ''Authenticating...'' # es0
      in case (case existingSession of
                 Some s \<Rightarrow> if isValidSession s then Some s else None
               | None \<Rightarrow> None) of
           Some s \<Rightarrow> (es1 @ [updateStatusBar ''Authenticated''], Inr s)
         | None \<Rightarrow>
             (case tryApiKeyAuthentication env of
                (es2, Inl error) \<Rightarrow> session_failed (es1 @ es2) error
              | (es2, Inr (Some keySession)) \<Rightarrow>
                  (es1 @ es2 @ [updateStatusBar ''Authenticated (API Key)''], Inr keySession)
              | (es2, Inr None) \<Rightarrow>
                  (case tryAdcAuthentication env of
                     Some adcSession \<Rightarrow>
                       (es1 @ es2 @ [updateStatusBar ''Authenticated (ADC)''], Inr adcSession)
                   | None \<Rightarrow>
                       (case performOAuthFlow env requested of
                          (es3, Inl error) \<Rightarrow> session_failed (es1 @ es2 @ es3) error
                        | (es3, Inr session) \<Rightarrow>
                            (es1 @ es2 @ es3 @ [updateStatusBar ''Authenticated'',
                                                SessionsChanged [session] [] []],
                             Inr session)))))"

definition default_options :: cli_options where
  "default_options =
     \<lparr>geminiCliPath = None, apiModelId = None, timeout = None, useJsonMode = None,
      enableInteractiveMode = None, requireConfirmation = None\<rparr>"

section \<open>Notions the properties are stated with\<close>

text \<open>
  A word occurs in a text up to letter case when some contiguous run of the text
  equals the word once both are lower-cased.
\<close>

definition ci_contains :: "string \<Rightarrow> string \<Rightarrow> bool" where
  "ci_contains text w = (\<exists>u. sublist u text \<and> toLowerCase u = toLowerCase w)"

text \<open>The span of a text from its first opening brace to its last closing brace.\<close>

definition brace_span :: "string \<Rightarrow> string \<Rightarrow> bool" where
  "brace_span text m =
     (\<exists>pre body post. text = pre @ m @ post \<and> m = CHR ''{'' # body @ [CHR ''}'']
        \<and> CHR ''{'' \<notin> set pre \<and> CHR ''}'' \<notin> set post)"

text \<open>The markers of the three phases, as occurrences in the chunk.\<close>

definition reasoning_marker :: "string \<Rightarrow> bool" where
  "reasoning_marker text = (sublist ''Thinking:'' text \<or> sublist ''Reasoning:'' text)"

definition action_marker :: "string \<Rightarrow> bool" where
  "action_marker text = (sublist ''Tool:'' text \<or> sublist ''Action:'' text)"

definition confirmation_marker :: "string \<Rightarrow> bool" where
  "confirmation_marker text =
     (sublist ''Confirm:'' text \<or> sublist ''Proceed?'' text \<or> sublist ''[Y/n]'' text)"

text \<open>
  A value that is an object, and the notions the analysis of the recogniser uses: the
  kind of the outermost open container, the state right after that container has been
  closed, and the states of a text whose value is not a container.
\<close>

fun is_object :: "json \<Rightarrow> bool" where
  "is_object (JObject ms) = True"
| "is_object _ = False"

fun object_frame :: "frame \<Rightarrow> bool" where
  "object_frame (ObjectFrame ms k) = True"
| "object_frame (ArrayFrame xs) = False"

definition bottom :: "bool \<Rightarrow> frame list \<Rightarrow> bool" where
  "bottom b st = (st \<noteq> [] \<and> object_frame (last st) = b)"

definition closed_as :: "bool \<Rightarrow> char \<Rightarrow> pstate \<Rightarrow> bool" where
  "closed_as b c p =
     (\<exists>v. p = (Idle, ExpEnd v, []) \<and> is_object v = b \<and> (b \<longrightarrow> c = CHR ''}''))"

definition scalar_state :: "pstate \<Rightarrow> bool" where
  "scalar_state p =
     (case p of (l, e, st) \<Rightarrow>
        st = [] \<and>
        (case l of
           Idle \<Rightarrow> (case e of ExpEnd v \<Rightarrow> \<not> is_object v | _ \<Rightarrow> False)
         | InLiteral r v \<Rightarrow> \<not> is_object v
         | _ \<Rightarrow> True))"


text \<open>The stored session that counts as active, and the API key the environment supplies.\<close>

definition active_session :: "auth_env \<Rightarrow> session option" where
  "active_session env =
     (case stored env of
        StoredSession s \<Rightarrow> if accessToken s \<noteq> [] then Some s else None
      | _ \<Rightarrow> None)"

definition environment_key :: "auth_env \<Rightarrow> string option" where
  "environment_key env =
     (case GEMINI_API_KEY env of
        Some k \<Rightarrow> if k \<noteq> [] then Some k else None
      | None \<Rightarrow> None)"

text \<open>Inputs used in the instances below.\<close>

definition example_session :: session where
  "example_session =
     \<lparr>session_id = ''gemini-oauth-1'', accessToken = ''secret-token'', account_id = ''oauth-user'',
      account_label = ''Google OAuth'', scopes = SCOPES\<rparr>"

definition example_host :: auth_host where
  "example_host =
     \<lparr>silentSession = Inr (Some example_session), userChoice = None,
      consentSession = Inr example_session\<rparr>"

definition example_random :: string where
  "example_random = [CHR 0x01, CHR 0x23, CHR 0x45, CHR 0x67, CHR 0x89, CHR 0xAB, CHR 0xCD, CHR 0xEF]"


definition example_tokens :: oauth_tokens where
  "example_tokens = \<lparr>access_token = ''fresh-token'', refresh_token = Some ''refresh-token''\<rparr>"

definition example_env :: auth_env where
  "example_env =
     \<lparr>stored = StoredSession example_session, GEMINI_API_KEY = Some ''key-from-env'',
      storeFailure = None, oauthFlow = Inl (new_Error ''Authentication timeout''),
      Date_now = 1700000000000\<rparr>"

definition failing_env :: auth_env where
  "failing_env =
     \<lparr>stored = NoData, GEMINI_API_KEY = None,
      storeFailure = None, oauthFlow = Inl (new_Error ''Authentication timeout''),
      Date_now = 1700000000000\<rparr>"

section \<open>Properties\<close>

subsection \<open>Strings, traces and the event handlers\<close>

lemma str_includes_sublist: "str_includes s sub \<longleftrightarrow> sublist sub s"
  by (induction s) (auto simp: sublist_Cons_right)

lemma yielded_append: "yielded (xs @ ys) = yielded xs @ yielded ys"
  by (induction xs rule: yielded.induct) simp_all

lemma confirmations_append: "confirmations (xs @ ys) = confirmations xs @ confirmations ys"
  by (induction xs rule: confirmations.induct) simp_all

lemma spawned_append: "spawned (xs @ ys) = spawned xs @ spawned ys"
  by (induction xs rule: spawned.induct) simp_all

lemma parseCliOutput_total: "\<exists>logs ev. parseCliOutput text cid = (logs, Inr ev)"
  by (simp add: parseCliOutput_def split: sum.splits option.splits)

lemma parseCliOutput_logs:
  "parseCliOutput text cid = (logs, r) \<Longrightarrow> yielded logs = [] \<and> confirmations logs = [] \<and> spawned logs = []"
  by (auto simp: parseCliOutput_def logInfo_def split: sum.splits option.splits if_splits)

lemma onStdoutData_fields:
  "output_str (onStdoutData cid text s) = output_str s @ text"
  "errorOutput (onStdoutData cid text s) = errorOutput s"
  "isComplete (onStdoutData cid text s) = isComplete s"
  "yielded (effects (onStdoutData cid text s)) = yielded (effects s)"
  "confirmations (effects (onStdoutData cid text s)) = confirmations (effects s)"
  "spawned (effects (onStdoutData cid text s)) = spawned (effects s)"
  using parseCliOutput_logs [of "text" cid]
  by (auto simp: onStdoutData_def emit_def Let_def logInfo_def logWarning_def yielded_append
      confirmations_append spawned_append split: prod.splits sum.splits)


lemma handle_fields:
  "output_str (handle cid ms s ev) = output_str s @ stdout_of [ev]"
  "errorOutput (handle cid ms s ev) = errorOutput s @ stderr_of [ev]"
  "isComplete (handle cid ms s ev) = isComplete s"
  "yielded (effects (handle cid ms s ev)) = yielded (effects s)"
  "confirmations (effects (handle cid ms s ev)) = confirmations (effects s)"
  "spawned (effects (handle cid ms s ev)) = spawned (effects s)"
  by (cases ev; simp add: onStdoutData_fields onStderrData_def onTimeout_def emit_def
      logWarning_def yielded_append confirmations_append spawned_append)+

lemma stdout_of_append: "stdout_of (xs @ ys) = stdout_of xs @ stdout_of ys"
  by (induction xs rule: stdout_of.induct) simp_all

lemma stderr_of_append: "stderr_of (xs @ ys) = stderr_of xs @ stderr_of ys"
  by (induction xs rule: stderr_of.induct) simp_all

lemma foldl_handle_fields:
  "output_str (foldl (handle cid ms) s evs) = output_str s @ stdout_of evs"
  "errorOutput (foldl (handle cid ms) s evs) = errorOutput s @ stderr_of evs"
  "isComplete (foldl (handle cid ms) s evs) = isComplete s"
  "yielded (effects (foldl (handle cid ms) s evs)) = yielded (effects s)"
  "confirmations (effects (foldl (handle cid ms) s evs)) = confirmations (effects s)"
  "spawned (effects (foldl (handle cid ms) s evs)) = spawned (effects s)"
proof (induction evs arbitrary: s)
  case Nil
  {
    case 1 show ?case by simp
  next
    case 2 show ?case by simp
  next
    case 3 show ?case by simp
  next
    case 4 show ?case by simp
  next
    case 5 show ?case by simp
  next
    case 6 show ?case by simp
  }
next
  case (Cons ev evs)
  have a: "stdout_of (ev # evs) = stdout_of [ev] @ stdout_of evs"
    using stdout_of_append [of "[ev]" evs] by simp
  have b: "stderr_of (ev # evs) = stderr_of [ev] @ stderr_of evs"
    using stderr_of_append [of "[ev]" evs] by simp
  {
    case 1 show ?case unfolding a by (simp add: Cons.IH handle_fields)
  next
    case 2 show ?case unfolding b by (simp add: Cons.IH handle_fields)
  next
    case 3 show ?case by (simp add: Cons.IH handle_fields)
  next
    case 4 show ?case by (simp add: Cons.IH handle_fields)
  next
    case 5 show ?case by (simp add: Cons.IH handle_fields)
  next
    case 6 show ?case by (simp add: Cons.IH handle_fields)
  }
qed

lemma start_state_fields:
  "output_str (start_state opts env prompt cid) = []"
  "errorOutput (start_state opts env prompt cid) = []"
  "yielded (effects (start_state opts env prompt cid)) = []"
  "confirmations (effects (start_state opts env prompt cid)) = []"
  "spawned (effects (start_state opts env prompt cid)) =
     [(or_string (geminiCliPath opts) ''gemini'', buildCliArguments opts, spawn_env opts env cid)]"
  by (simp_all add: start_state_def logInfo_def)

lemma executeStatefulCli_close:
  "executeStatefulCli opts env prompt cid evs (Close code) =
     (let es = effects (foldl (handle cid (or_number (timeout opts) 60000))
                 (start_state opts env prompt cid) evs)
             @ [ClearTimeout, logInfo cid (''CLI process completed with exit code: '' @ show_code code)]
      in if code \<noteq> Some 0 then
           (es @ [logError cid ''CLI execution failed''
                    (new_Error (''Gemini CLI exited with code '' @ show_code code
                        @ ''. Error: '' @ stderr_of evs))],
            Some (new_Error (''Gemini CLI exited with code '' @ show_code code
                        @ ''. Error: '' @ stderr_of evs)))
         else if trim (stdout_of evs) = [] then
           (es @ [logError cid ''CLI execution failed'' (new_Error ''Gemini CLI produced no output'')],
            Some (new_Error ''Gemini CLI produced no output''))
         else
           (es @ [Yield (TextChunk (stdout_of evs)),
                  Yield (UsageChunk (estimateTokens prompt) (estimateTokens (stdout_of evs)) 0 0),
                  logInfo cid ''CLI execution completed successfully''],
            None))"
  by (simp add: executeStatefulCli_def after_close_def emit_def Let_def foldl_handle_fields
      start_state_fields)

lemma yielded_close:
  "yielded (fst (executeStatefulCli opts env prompt cid evs (Close code))) =
     (if code = Some 0 \<and> trim (stdout_of evs) \<noteq> []
      then [TextChunk (stdout_of evs),
            UsageChunk (estimateTokens prompt) (estimateTokens (stdout_of evs)) 0 0]
      else [])"
  by (simp add: executeStatefulCli_close Let_def yielded_append foldl_handle_fields
      start_state_fields logInfo_def logError_def)

lemma yielded_error:
  "yielded (fst (executeStatefulCli opts env prompt cid evs (ProcError e))) = []"
  by (simp add: executeStatefulCli_def Let_def yielded_append foldl_handle_fields
      start_state_fields logError_def)

lemma handle_streamChunks:
  assumes "\<not> isComplete s"
  shows "streamChunks (handle cid ms s ev) = streamChunks s @ map TextChunk (stdout_chunks [ev])"
proof (cases ev)
  case (StdoutData t)
  obtain logs r where p: "parseCliOutput t cid = (logs, Inr r)"
    using parseCliOutput_total [of t cid] by blast
  show ?thesis
    unfolding StdoutData using assms
    by (simp add: onStdoutData_def emit_def Let_def p)
next
  case (StderrData t)
  show ?thesis unfolding StderrData by (simp add: onStderrData_def emit_def)
next
  case TimerFired
  show ?thesis unfolding TimerFired by (simp add: onTimeout_def emit_def)
qed

lemma stdout_chunks_append: "stdout_chunks (xs @ ys) = stdout_chunks xs @ stdout_chunks ys"
  by (induction xs rule: stdout_chunks.induct) simp_all

lemma foldl_handle_streamChunks:
  "\<not> isComplete s \<Longrightarrow>
     streamChunks (foldl (handle cid ms) s evs) = streamChunks s @ map TextChunk (stdout_chunks evs)"
proof (induction evs arbitrary: s)
  case Nil
  show ?case by simp
next
  case (Cons ev evs)
  have n: "\<not> isComplete (handle cid ms s ev)"
    using Cons.prems by (simp add: handle_fields)
  have "stdout_chunks (ev # evs) = stdout_chunks [ev] @ stdout_chunks evs"
    using stdout_chunks_append [of "[ev]" evs] by simp
  then show ?case
    using Cons.IH [OF n] handle_streamChunks [OF Cons.prems, of cid ms ev] by simp
qed

lemma collected_chunks:
  "streamChunks (foldl (handle cid ms) (start_state opts env prompt cid) evs)
     = map TextChunk (stdout_chunks evs)"
  using foldl_handle_streamChunks [of "start_state opts env prompt cid" cid ms evs]
  by (simp add: start_state_def)

subsection \<open>How a run of \<^verbatim>\<open>executeStatefulCli\<close> ends\<close>

text \<open>
  C10.  The stream of one run yields a text chunk exactly when the process closes with
  exit code 0 and the standard output collected over the run is not blank.  In that
  case it yields the collected output and the usage chunk and throws nothing.  A close
  with any other exit code throws the error whose message carries the exit code and
  the collected standard error, and a close with code 0 and blank output throws
  \<^verbatim>\<open>Gemini CLI produced no output\<close>; neither yields a chunk.
\<close>

theorem stream_outcome:
  "((\<exists>t. TextChunk t \<in> set (yielded (fst (executeStatefulCli opts env prompt cid evs ending))))
      \<longleftrightarrow> ending = Close (Some 0) \<and> trim (stdout_of evs) \<noteq> [])
   \<and> (ending = Close (Some 0) \<and> trim (stdout_of evs) \<noteq> [] \<longrightarrow>
        snd (executeStatefulCli opts env prompt cid evs ending) = None
        \<and> yielded (fst (executeStatefulCli opts env prompt cid evs ending))
          = [TextChunk (stdout_of evs),
             UsageChunk (estimateTokens prompt) (estimateTokens (stdout_of evs)) 0 0])
   \<and> (\<forall>code. ending = Close code \<and> code \<noteq> Some 0 \<longrightarrow>
        snd (executeStatefulCli opts env prompt cid evs ending)
          = Some (new_Error (''Gemini CLI exited with code '' @ show_code code
                    @ ''. Error: '' @ stderr_of evs))
        \<and> yielded (fst (executeStatefulCli opts env prompt cid evs ending)) = [])
   \<and> (ending = Close (Some 0) \<and> trim (stdout_of evs) = [] \<longrightarrow>
        snd (executeStatefulCli opts env prompt cid evs ending)
          = Some (new_Error ''Gemini CLI produced no output'')
        \<and> yielded (fst (executeStatefulCli opts env prompt cid evs ending)) = [])"
proof (cases ending)
  case (Close code)
  show ?thesis
    unfolding Close
    by (simp add: yielded_close) (simp add: executeStatefulCli_close Let_def)
next
  case (ProcError e)
  show ?thesis
    unfolding ProcError by (simp add: yielded_error)
qed

theorem stream_outcome_witness:
  "yielded (fst (executeStatefulCli default_options [] ''hi'' ''ab'' [StdoutData ''ok''] (Close (Some 0))))
     = [TextChunk ''ok'', UsageChunk 1 1 0 0]
   \<and> snd (executeStatefulCli default_options [] ''hi'' ''ab'' [StdoutData ''ok''] (Close (Some 0))) = None
   \<and> snd (executeStatefulCli default_options [] ''hi'' ''ab'' [StderrData ''boom''] (Close (Some 1)))
     = Some (new_Error ''Gemini CLI exited with code 1. Error: boom'')
   \<and> snd (executeStatefulCli default_options [] ''hi'' ''ab'' [StdoutData '' ''] (Close (Some 0)))
     = Some (new_Error ''Gemini CLI produced no output'')"
proof -
  have a: "trim (stdout_of [StdoutData ''ok'']) \<noteq> []"
    by (simp add: trim_def js_space_def)
  have b: "trim (stdout_of [StdoutData '' '']) = []"
    by (simp add: trim_def js_space_def)
  have c: "show_code (Some 1) = ''1''"
    by (simp add: show_code_def show_nat.simps digit_char_def)
  show ?thesis
    using a b c
      stream_outcome [of default_options "[]" "''hi''" "''ab''" "[StdoutData ''ok'']" "Close (Some 0)"]
      stream_outcome [of default_options "[]" "''hi''" "''ab''" "[StderrData ''boom'']" "Close (Some 1)"]
      stream_outcome [of default_options "[]" "''hi''" "''ab''" "[StdoutData '' '']" "Close (Some 0)"]
    by (simp add: estimateTokens_def)
qed

subsection \<open>The JSON recogniser\<close>

text \<open>
  A text that parses as an object consists of blanks, the span from its first opening
  brace to its last closing brace, and blanks; the span parses to the same object.
\<close>

lemma run_None: "run None xs = None"
  by (cases xs) simp_all

lemma run_append: "run p (xs @ ys) = run (run p xs) ys"
proof (induction xs arbitrary: p)
  case Nil
  show ?case by simp
next
  case (Cons x xs)
  show ?case by (cases p) (simp_all add: Cons.IH run_None)
qed

lemma run_spaces:
  "\<forall>c \<in> set ws. json_space c \<Longrightarrow> run (Some (Idle, e, st)) ws = Some (Idle, e, st)"
  by (induction ws) (simp_all add: step_idle_def)

lemma step_end:
  "step_idle c (ExpEnd v) [] = (if json_space c then Some (Idle, ExpEnd v, []) else None)"
  by (simp add: step_idle_def close_object_def close_array_def comma_def colon_def
      start_scalar_def)

lemma run_end:
  "run (Some (Idle, ExpEnd v, [])) xs = Some p
     \<Longrightarrow> (\<forall>c \<in> set xs. json_space c) \<and> p = (Idle, ExpEnd v, [])"
proof (induction xs)
  case Nil
  then show ?case by simp
next
  case (Cons c cs)
  show ?case
  proof (cases "json_space c")
    case True
    with Cons show ?thesis by (simp add: step_end)
  next
    case False
    with Cons.prems show ?thesis by (simp add: step_end run_None)
  qed
qed

lemma deliver_bottom:
  "bottom b st \<Longrightarrow> deliver v st = Some (l', e', st') \<Longrightarrow> bottom b st' \<and> l' = Idle"
  by (cases "(v, st)" rule: deliver.cases) (auto simp: bottom_def split: if_splits)

lemma step_idle_bottom:
  assumes "bottom b st" "step_idle c e st = Some (l', e', st')"
  shows "bottom b st' \<or> closed_as b c (l', e', st')"
proof -
  consider (sp) "json_space c" | (q) "\<not> json_space c" "c = CHR 0x22"
    | (ob) "c = CHR ''{''" | (ab) "c = CHR ''[''" | (oc) "c = CHR ''}''" | (ac) "c = CHR '']''"
    | (cm) "c = CHR '',''" | (cl) "c = CHR '':''"
    | (sc) "\<not> json_space c" "c \<noteq> CHR 0x22" "c \<noteq> CHR ''{''" "c \<noteq> CHR ''[''" "c \<noteq> CHR ''}''"
        "c \<noteq> CHR '']''" "c \<noteq> CHR '',''" "c \<noteq> CHR '':''"
    by blast
  then show ?thesis
  proof cases
    case sp
    with assms show ?thesis by (simp add: step_idle_def)
  next
    case q
    with assms show ?thesis by (auto simp: step_idle_def split: if_splits)
  next
    case ob
    with assms show ?thesis
      by (auto simp: step_idle_def json_space_def bottom_def split: if_splits)
  next
    case ab
    with assms show ?thesis
      by (auto simp: step_idle_def json_space_def bottom_def split: if_splits)
  next
    case oc
    with assms have co: "close_object e st = Some (l', e', st')"
      by (simp add: step_idle_def json_space_def)
    then obtain ms rest where st: "st = ObjectFrame ms None # rest"
      and d: "deliver (JObject (rev ms)) rest = Some (l', e', st')"
      by (auto simp: close_object_def split: if_splits list.splits frame.splits option.splits)
    show ?thesis
    proof (cases rest)
      case Nil
      with d oc assms(1) st show ?thesis by (auto simp: closed_as_def bottom_def)
    next
      case (Cons f fs)
      with assms(1) st have "bottom b rest" by (simp add: bottom_def)
      with d show ?thesis using deliver_bottom by blast
    qed
  next
    case ac
    with assms have co: "close_array e st = Some (l', e', st')"
      by (simp add: step_idle_def json_space_def)
    then obtain xs rest where st: "st = ArrayFrame xs # rest"
      and d: "deliver (JArray (rev xs)) rest = Some (l', e', st')"
      by (auto simp: close_array_def split: if_splits list.splits frame.splits)
    show ?thesis
    proof (cases rest)
      case Nil
      with d ac assms(1) st show ?thesis by (auto simp: closed_as_def bottom_def)
    next
      case (Cons f fs)
      with assms(1) st have "bottom b rest" by (simp add: bottom_def)
      with d show ?thesis using deliver_bottom by blast
    qed
  next
    case cm
    with assms show ?thesis
      by (auto simp: step_idle_def json_space_def comma_def
          split: if_splits expect.splits list.splits frame.splits)
  next
    case cl
    with assms show ?thesis
      by (auto simp: step_idle_def json_space_def colon_def split: if_splits expect.splits)
  next
    case sc
    with assms show ?thesis
      by (auto simp: step_idle_def start_scalar_def split: if_splits)
  qed
qed

lemma step_bottom:
  assumes "bottom b st" "step (l, e, st) c = Some (l', e', st')"
  shows "bottom b st' \<or> closed_as b c (l', e', st')"
proof (cases l)
  case Idle
  with assms show ?thesis using step_idle_bottom by simp
next
  case (InString acc)
  show ?thesis
  proof (cases "c = CHR 0x22")
    case True
    with assms InString have "put_string (rev acc) e st = Some (l', e', st')" by simp
    with assms(1) show ?thesis
      using deliver_bottom [of b st "JString (rev acc)" l' e' st']
      by (auto simp: put_string_def bottom_def split: if_splits list.splits frame.splits option.splits)
  next
    case False
    with assms InString show ?thesis by (auto split: if_splits)
  qed
next
  case (InEscape acc)
  with assms show ?thesis by (auto split: option.splits if_splits)
next
  case (InHex acc ds)
  with assms show ?thesis by (auto split: option.splits if_splits)
next
  case (InNumber lx ns)
  show ?thesis
  proof (cases "num_step ns c")
    case (NCont ns')
    with assms InNumber show ?thesis by auto
  next
    case NStop
    with assms InNumber obtain m e1 st1 where
      p: "put_value (JNumber (rev lx)) e st = Some (m, e1, st1)"
      and s: "step_idle c e1 st1 = Some (l', e', st')"
      by (auto split: option.splits)
    from p assms(1) have "bottom b st1"
      using deliver_bottom [of b st "JNumber (rev lx)" m e1 st1]
      by (auto simp: put_value_def split: if_splits)
    then show ?thesis using s by (rule step_idle_bottom)
  next
    case NBad
    with assms InNumber show ?thesis by auto
  qed
next
  case (InLiteral rest v)
  with assms show ?thesis
    using deliver_bottom [of b st v l' e' st']
    by (auto simp: put_value_def split: list.splits if_splits)
qed

text \<open>A run that starts inside a container ends inside it, or has closed it.\<close>

lemma run_bottom:
  assumes "bottom b st" "run (Some (l, e, st)) xs = Some (l', e', st')"
  shows "bottom b st'
         \<or> (\<exists>ys c zs v. xs = ys @ c # zs \<and> (\<forall>d \<in> set zs. json_space d)
               \<and> run (Some (l, e, st)) (ys @ [c]) = Some (Idle, ExpEnd v, [])
               \<and> (l', e', st') = (Idle, ExpEnd v, []) \<and> is_object v = b
               \<and> (b \<longrightarrow> c = CHR ''}''))"
  using assms
proof (induction xs arbitrary: l e st)
  case Nil
  then show ?case by simp
next
  case (Cons c cs)
  from Cons.prems(2) obtain l1 e1 st1 where
    s: "step (l, e, st) c = Some (l1, e1, st1)"
    and r: "run (Some (l1, e1, st1)) cs = Some (l', e', st')"
    by (cases "step (l, e, st) c") (auto simp: run_None)
  from step_bottom [OF Cons.prems(1) s]
  show ?case
  proof
    assume b1: "bottom b st1"
    from Cons.IH [OF b1 r] show ?thesis
    proof
      assume "bottom b st'"
      then show ?thesis by simp
    next
      assume "\<exists>ys c' zs v. cs = ys @ c' # zs \<and> (\<forall>d \<in> set zs. json_space d)
               \<and> run (Some (l1, e1, st1)) (ys @ [c']) = Some (Idle, ExpEnd v, [])
               \<and> (l', e', st') = (Idle, ExpEnd v, []) \<and> is_object v = b
               \<and> (b \<longrightarrow> c' = CHR ''}'')"
      then obtain ys c' zs v where
        h: "cs = ys @ c' # zs" "\<forall>d \<in> set zs. json_space d"
          "run (Some (l1, e1, st1)) (ys @ [c']) = Some (Idle, ExpEnd v, [])"
          "(l', e', st') = (Idle, ExpEnd v, [])" "is_object v = b" "b \<longrightarrow> c' = CHR ''}''"
        by blast
      have "c # cs = (c # ys) @ c' # zs" using h(1) by simp
      moreover have "run (Some (l, e, st)) ((c # ys) @ [c']) = Some (Idle, ExpEnd v, [])"
        using s h(3) by simp
      ultimately show ?thesis using h(2,4,5,6) by blast
    qed
  next
    assume "closed_as b c (l1, e1, st1)"
    then obtain v where
      v: "(l1, e1, st1) = (Idle, ExpEnd v, [])" "is_object v = b" "b \<longrightarrow> c = CHR ''}''"
      by (auto simp: closed_as_def)
    from r v(1) have e: "(\<forall>d \<in> set cs. json_space d) \<and> (l', e', st') = (Idle, ExpEnd v, [])"
      using run_end [of v cs "(l', e', st')"] by simp
    have "c # cs = [] @ c # cs" by simp
    moreover have "run (Some (l, e, st)) ([] @ [c]) = Some (Idle, ExpEnd v, [])"
      using s v(1) by simp
    ultimately show ?thesis using e v(2,3) by blast
  qed
qed

lemma step_scalar:
  assumes "scalar_state p" "step p c = Some p'"
  shows "scalar_state p'"
proof -
  obtain l e st where p: "p = (l, e, st)" by (cases p)
  with assms(1) have st: "st = []" by (simp add: scalar_state_def)
  show ?thesis
  proof (cases l)
    case Idle
    with assms p st obtain v where "e = ExpEnd v" "\<not> is_object v"
      by (auto simp: scalar_state_def split: expect.splits)
    with assms(2) p st Idle show ?thesis
      by (auto simp: step_end scalar_state_def split: if_splits)
  next
    case (InString acc)
    with assms(2) p st show ?thesis
      by (auto simp: scalar_state_def put_string_def split: if_splits)
  next
    case (InEscape acc)
    with assms(2) p st show ?thesis
      by (auto simp: scalar_state_def split: if_splits option.splits)
  next
    case (InHex acc ds)
    with assms(2) p st show ?thesis
      by (auto simp: scalar_state_def split: if_splits option.splits)
  next
    case (InNumber lx ns)
    with assms(2) p st show ?thesis
      by (cases "num_step ns c")
        (auto simp: scalar_state_def put_value_def step_end split: if_splits option.splits)
  next
    case (InLiteral r v)
    with assms p st show ?thesis
      by (auto simp: scalar_state_def put_value_def split: if_splits list.splits)
  qed
qed

lemma run_scalar:
  "scalar_state p \<Longrightarrow> run (Some p) xs = Some p' \<Longrightarrow> scalar_state p'"
proof (induction xs arbitrary: p)
  case Nil
  then show ?case by simp
next
  case (Cons c cs)
  from Cons.prems(2) obtain p1 where s: "step p c = Some p1" and r: "run (Some p1) cs = Some p'"
    by (cases "step p c") (auto simp: run_None)
  from Cons.prems(1) s have "scalar_state p1" by (rule step_scalar)
  then show ?case using r by (rule Cons.IH)
qed

lemma finish_scalar: "scalar_state p \<Longrightarrow> finish p = Some v \<Longrightarrow> \<not> is_object v"
  by (cases p rule: finish.cases)
    (auto simp: scalar_state_def put_value_def split: if_splits option.splits)

lemma finish_bottom: "bottom b st \<Longrightarrow> finish (l, e, st) = None"
proof (cases "(l, e, st)" rule: finish.cases)
  case (2 lx ns e' st')
  assume b: "bottom b st"
  have "deliver (JNumber (rev lx)) st \<noteq> Some (Idle, ExpEnd v, [])" for v
    using deliver_bottom [OF b, of "JNumber (rev lx)" Idle "ExpEnd v" "[]"]
    by (auto simp: bottom_def)
  with 2 show ?thesis
    by (auto simp: put_value_def split: option.splits lexmode.splits expect.splits list.splits)
qed (auto simp: bottom_def)

lemma first_char:
  assumes "\<not> json_space c" "step_idle c ExpValue [] = Some p"
  shows "(c = CHR ''{'' \<and> p = (Idle, ExpKeyOrClose, [ObjectFrame [] None]))
         \<or> (c = CHR ''['' \<and> p = (Idle, ExpValueOrClose, [ArrayFrame []]))
         \<or> scalar_state p"
  using assms
  by (auto simp: step_idle_def close_object_def close_array_def comma_def colon_def
      start_scalar_def scalar_state_def split: if_splits)

lemma parse_object_span:
  assumes "JSON_parse t = Inr v" "is_object v"
  shows "\<exists>m. brace_span t m \<and> JSON_parse m = Inr v"
proof -
  from assms(1) obtain p where p: "run (Some (Idle, ExpValue, [])) t = Some p" "finish p = Some v"
    by (auto simp: JSON_parse_def split: option.splits)
  define ws where "ws = takeWhile json_space t"
  define rest where "rest = dropWhile json_space t"
  have t: "t = ws @ rest" by (simp add: ws_def rest_def)
  have sp: "\<forall>c \<in> set ws. json_space c"
    unfolding ws_def by (auto dest: set_takeWhileD)
  have "run (Some (Idle, ExpValue, [])) t = run (Some (Idle, ExpValue, [])) rest"
    unfolding t by (simp add: run_append run_spaces [OF sp])
  with p(1) have r: "run (Some (Idle, ExpValue, [])) rest = Some p" by simp
  have "rest \<noteq> []"
  proof
    assume "rest = []"
    with r p(2) show False by auto
  qed
  then obtain c cs where rest: "rest = c # cs" by (cases rest) auto
  have nc: "\<not> json_space c"
  proof -
    have "dropWhile json_space t \<noteq> []" using rest by (simp add: rest_def)
    then have "\<not> json_space (hd (dropWhile json_space t))" by (rule hd_dropWhile)
    then show ?thesis using rest by (simp add: rest_def)
  qed
  from r rest obtain p1 where s: "step_idle c ExpValue [] = Some p1"
    and r1: "run (Some p1) cs = Some p"
    by (cases "step_idle c ExpValue []") (auto simp: run_None)
  obtain l' e' st' where p': "p = (l', e', st')" by (cases p)
  from first_char [OF nc s]
  consider (obj) "c = CHR ''{''" "p1 = (Idle, ExpKeyOrClose, [ObjectFrame [] None])"
    | (arr) "c = CHR ''[''" "p1 = (Idle, ExpValueOrClose, [ArrayFrame []])"
    | (sc) "scalar_state p1"
    by blast
  then show ?thesis
  proof cases
    case sc
    then have "scalar_state p" using r1 by (rule run_scalar)
    with p(2) assms(2) show ?thesis using finish_scalar by blast
  next
    case arr
    have b: "bottom False [ArrayFrame []]" by (simp add: bottom_def)
    from run_bottom [OF b, of Idle ExpValueOrClose cs l' e' st'] r1 arr(2) p'
    have "bottom False st' \<or> (\<exists>w. p = (Idle, ExpEnd w, []) \<and> is_object w = False)"
      by auto
    then show ?thesis
    proof
      assume "bottom False st'"
      with p(2) p' show ?thesis by (simp add: finish_bottom)
    next
      assume "\<exists>w. p = (Idle, ExpEnd w, []) \<and> is_object w = False"
      with p(2) assms(2) show ?thesis by auto
    qed
  next
    case obj
    have b: "bottom True [ObjectFrame [] None]" by (simp add: bottom_def)
    from run_bottom [OF b, of Idle ExpKeyOrClose cs l' e' st'] r1 obj(2) p'
    have "bottom True st'
         \<or> (\<exists>ys zs w. cs = ys @ CHR ''}'' # zs \<and> (\<forall>d \<in> set zs. json_space d)
               \<and> run (Some p1) (ys @ [CHR ''}'']) = Some (Idle, ExpEnd w, [])
               \<and> p = (Idle, ExpEnd w, []))"
      by auto
    then show ?thesis
    proof
      assume "bottom True st'"
      with p(2) p' show ?thesis by (simp add: finish_bottom)
    next
      assume "\<exists>ys zs w. cs = ys @ CHR ''}'' # zs \<and> (\<forall>d \<in> set zs. json_space d)
               \<and> run (Some p1) (ys @ [CHR ''}'']) = Some (Idle, ExpEnd w, [])
               \<and> p = (Idle, ExpEnd w, [])"
      then obtain ys zs w where
        h: "cs = ys @ CHR ''}'' # zs" "\<forall>d \<in> set zs. json_space d"
          "run (Some p1) (ys @ [CHR ''}'']) = Some (Idle, ExpEnd w, [])"
          "p = (Idle, ExpEnd w, [])"
        by blast
      from h(4) p(2) have w: "w = v" by simp
      let ?m = "CHR ''{'' # ys @ [CHR ''}'']"
      have f1: "t = ws @ ?m @ zs" using t rest obj(1) h(1) by simp
      have f2: "CHR ''{'' \<notin> set ws"
      proof
        assume "CHR ''{'' \<in> set ws"
        with sp have "json_space (CHR ''{'')" by (rule bspec)
        then show False by (simp add: json_space_def)
      qed
      have f3: "CHR ''}'' \<notin> set zs"
      proof
        assume "CHR ''}'' \<in> set zs"
        with h(2) have "json_space (CHR ''}'')" by (rule bspec)
        then show False by (simp add: json_space_def)
      qed
      have f4: "brace_span t ?m"
        unfolding brace_span_def
        by (rule exI [of _ ws], rule exI [of _ ys], rule exI [of _ zs]) (simp only: f1 f2 f3 simp_thms)
      have "step (Idle, ExpValue, []) (CHR ''{'') = Some p1"
        using s obj(1) by simp
      then have "run (Some (Idle, ExpValue, [])) ?m = Some (Idle, ExpEnd v, [])"
        using h(3) w by (simp only: run.simps)
      then have f5: "JSON_parse ?m = Inr v"
        by (simp add: JSON_parse_def)
      show ?thesis
        by (rule exI [of _ ?m]) (simp only: f4 f5 simp_thms)
    qed
  qed
qed

subsection \<open>Classification of a chunk\<close>

lemma requiresUserConfirmation_ci:
  "requiresUserConfirmation text \<longleftrightarrow> (\<exists>w \<in> set dangerousActions. ci_contains text w)"
proof -
  have "sublist (toLowerCase w) (toLowerCase text) \<longleftrightarrow> ci_contains text w" for w
  proof
    assume "sublist (toLowerCase w) (toLowerCase text)"
    then obtain u where "sublist u text" "toLowerCase w = map lower_char u"
      unfolding toLowerCase_def using sublist_map_rightE by blast
    then show "ci_contains text w"
      by (auto simp: ci_contains_def toLowerCase_def)
  next
    assume "ci_contains text w"
    then obtain u where u: "sublist u text" "toLowerCase u = toLowerCase w"
      by (auto simp: ci_contains_def)
    from u(1) have "sublist (toLowerCase u) (toLowerCase text)"
      unfolding toLowerCase_def by (rule map_mono_sublist)
    with u(2) show "sublist (toLowerCase w) (toLowerCase text)" by simp
  qed
  then show ?thesis
    by (simp add: requiresUserConfirmation_def list_ex_iff str_includes_sublist)
qed

lemma jsonMatch_span_intro:
  assumes "CHR ''{'' \<notin> set pre" "CHR ''}'' \<notin> set post"
  shows "jsonMatch (pre @ (CHR ''{'' # body @ [CHR ''}'']) @ post) = Some (CHR ''{'' # body @ [CHR ''}''])"
proof -
  have a: "dropWhile (\<lambda>c. c \<noteq> CHR ''{'') (pre @ (CHR ''{'' # body @ [CHR ''}'']) @ post)
             = CHR ''{'' # body @ [CHR ''}''] @ post"
    using assms(1) by (subst dropWhile_append2) auto
  have b: "dropWhile (\<lambda>c. c \<noteq> CHR ''}'') (rev (CHR ''{'' # body @ [CHR ''}''] @ post))
             = CHR ''}'' # rev body @ [CHR ''{'']"
  proof -
    have "dropWhile (\<lambda>c. c \<noteq> CHR ''}'') (rev post @ CHR ''}'' # rev body @ [CHR ''{''])
            = dropWhile (\<lambda>c. c \<noteq> CHR ''}'') (CHR ''}'' # rev body @ [CHR ''{''])"
      using assms(2) by (intro dropWhile_append2) auto
    then show ?thesis by simp
  qed
  show ?thesis
    unfolding jsonMatch_def Let_def a b by simp
qed

lemma jsonMatch_span_elim:
  assumes "jsonMatch text = Some m"
  shows "brace_span text m"
proof -
  define pre where "pre = takeWhile (\<lambda>c. c \<noteq> CHR ''{'') text"
  define r where "r = dropWhile (\<lambda>c. c \<noteq> CHR ''{'') text"
  define post where "post = rev (takeWhile (\<lambda>c. c \<noteq> CHR ''}'') (rev r))"
  have m: "m = rev (dropWhile (\<lambda>c. c \<noteq> CHR ''}'') (rev r))" and ne: "m \<noteq> []"
    using assms by (auto simp: jsonMatch_def Let_def r_def split: if_splits)
  have t: "text = pre @ r" by (simp add: pre_def r_def)
  have "rev r = rev post @ rev m"
    unfolding post_def m by simp
  then have r: "r = m @ post"
    by (metis rev_append rev_rev_ident)
  have p1: "CHR ''{'' \<notin> set pre"
    unfolding pre_def by (auto dest: set_takeWhileD)
  have p2: "CHR ''}'' \<notin> set post"
    unfolding post_def by (auto dest: set_takeWhileD)
  from ne r have "r \<noteq> []" by auto
  then have "hd r = CHR ''{''"
    using hd_dropWhile [of "\<lambda>c. c \<noteq> CHR ''{''" "text"] by (simp add: r_def)
  with r ne have hm: "hd m = CHR ''{''" by simp
  from ne have "rev m \<noteq> []" by simp
  then have "hd (rev m) = CHR ''}''"
    using hd_dropWhile [of "\<lambda>c. c \<noteq> CHR ''}''" "rev r"] by (simp add: m)
  then have lm: "last m = CHR ''}''"
    using ne by (simp add: hd_rev)
  obtain body where "m = CHR ''{'' # body @ [CHR ''}'']"
  proof -
    from ne hm obtain m' where m': "m = CHR ''{'' # m'" by (cases m) auto
    with lm have "m' \<noteq> []" by auto
    then obtain body where "m' = body @ [last m']"
      by (metis append_butlast_last_id)
    moreover have "last m' = CHR ''}''" using lm m' \<open>m' \<noteq> []\<close> by simp
    ultimately show ?thesis using m' that by auto
  qed
  then show ?thesis
    unfolding brace_span_def using t r p1 p2 by blast
qed

lemma jsonMatch_span: "jsonMatch text = Some m \<longleftrightarrow> brace_span text m"
proof
  assume "jsonMatch text = Some m"
  then show "brace_span text m" by (rule jsonMatch_span_elim)
next
  assume "brace_span text m"
  then obtain pre body post where
    "text = pre @ m @ post" "m = CHR ''{'' # body @ [CHR ''}'']"
    "CHR ''{'' \<notin> set pre" "CHR ''}'' \<notin> set post"
    unfolding brace_span_def by blast
  then show "jsonMatch text = Some m"
    using jsonMatch_span_intro [of pre post body] by simp
qed

lemmas marker_defs = reasoning_marker_def action_marker_def confirmation_marker_def

lemma parseCliOutput_result:
  "snd (parseCliOutput text cid) =
     Inr (if reasoning_marker text then Reasoning text
          else if action_marker text then ToolCall text (requiresUserConfirmation text)
          else if confirmation_marker text then ConfirmationRequest text
          else (case jsonMatch text of
                  None \<Rightarrow> TextOutput text
                | Some m \<Rightarrow>
                    (case JSON_parse m of
                       Inl e \<Rightarrow> TextOutput text
                     | Inr v \<Rightarrow> Structured text v)))"
  by (simp add: parseCliOutput_def try_structured_def marker_defs str_includes_sublist
      split: option.splits sum.splits)







text \<open>
  C2 (as amended).  A chunk that holds an action marker and no reasoning marker is
  classified as a tool call, and the tool call is flagged as requiring confirmation
  exactly when some entry of the deny-list occurs in the chunk up to letter case.
  A chunk that holds a reasoning marker is classified as reasoning, whatever else it
  holds, and carries no such flag.  The chunk \<^verbatim>\<open>Tool: rm -rf ./drafts\<close> followed
  by a line feed is a tool call that requires confirmation.
\<close>

theorem tool_call_flag:
  \<open>(\<not> reasoning_marker text \<and> action_marker text \<longrightarrow>
      snd (parseCliOutput text cid)
        = Inr (ToolCall text (\<exists>w \<in> set dangerousActions. ci_contains text w)))
   \<and> (reasoning_marker text \<longrightarrow> snd (parseCliOutput text cid) = Inr (Reasoning text))
   \<and> snd (parseCliOutput ''Tool: rm -rf ./drafts\<newline>'' cid)
        = Inr (ToolCall ''Tool: rm -rf ./drafts\<newline>'' True)\<close>
proof -
  have \<open>requiresUserConfirmation ''Tool: rm -rf ./drafts\<newline>''\<close>
    by code_simp
  moreover have \<open>\<not> reasoning_marker ''Tool: rm -rf ./drafts\<newline>''
      \<and> action_marker ''Tool: rm -rf ./drafts\<newline>''\<close>
    by (simp add: marker_defs str_includes_sublist [symmetric])
  ultimately show ?thesis
    by (simp add: parseCliOutput_result requiresUserConfirmation_ci)
qed

text \<open>
  The amended C2 at a chunk with an action marker and nothing of the deny-list, and at a
  chunk with a reasoning marker before an action marker.
\<close>

theorem tool_call_flag_witness:
  \<open>\<not> reasoning_marker ''Action: list files'' \<and> action_marker ''Action: list files''
   \<and> snd (parseCliOutput ''Action: list files'' ''ab'') = Inr (ToolCall ''Action: list files'' False)
   \<and> \<not> (\<exists>w \<in> set dangerousActions. ci_contains ''Action: list files'' w)
   \<and> reasoning_marker ''Thinking: then Tool: ls''
   \<and> snd (parseCliOutput ''Thinking: then Tool: ls'' ''ab'')
        = Inr (Reasoning ''Thinking: then Tool: ls'')\<close>
proof -
  have c: \<open>reasoning_marker ''Thinking: then Tool: ls''\<close>
    by (simp add: marker_defs str_includes_sublist [symmetric])
  have a: \<open>\<not> reasoning_marker ''Action: list files'' \<and> action_marker ''Action: list files''\<close>
    by (simp add: marker_defs str_includes_sublist [symmetric])
  have \<open>\<not> requiresUserConfirmation ''Action: list files''\<close>
    by code_simp
  then have b: \<open>\<not> (\<exists>w \<in> set dangerousActions. ci_contains ''Action: list files'' w)\<close>
    by (simp add: requiresUserConfirmation_ci)
  show ?thesis
    using a b c tool_call_flag [of "''Action: list files''" "''ab''"]
      tool_call_flag [of "''Thinking: then Tool: ls''" "''ab''"]
    by simp
qed

text \<open>
  C2 as stated fails: a chunk that holds an action marker after a reasoning marker is
  classified as reasoning, not as a tool call.
\<close>

theorem tool_call_counterexample:
  \<open>\<not> (\<forall>text cid. action_marker text \<longrightarrow>
          (\<exists>d. snd (parseCliOutput text cid) = Inr (ToolCall text d)))\<close>
proof
  assume a: \<open>\<forall>text cid. action_marker text \<longrightarrow>
          (\<exists>d. snd (parseCliOutput text cid) = Inr (ToolCall text d))\<close>
  have m: \<open>reasoning_marker ''Thinking: next, Tool: rm -rf ./drafts''
      \<and> action_marker ''Thinking: next, Tool: rm -rf ./drafts''\<close>
    by (simp add: marker_defs str_includes_sublist [symmetric])
  then have \<open>snd (parseCliOutput ''Thinking: next, Tool: rm -rf ./drafts'' ''ab'')
      = Inr (Reasoning ''Thinking: next, Tool: rm -rf ./drafts'')\<close>
    by (simp add: parseCliOutput_result)
  moreover from a m
  have \<open>\<exists>d. snd (parseCliOutput ''Thinking: next, Tool: rm -rf ./drafts'' ''ab'')
      = Inr (ToolCall ''Thinking: next, Tool: rm -rf ./drafts'' d)\<close>
    by blast
  ultimately show False by simp
qed

text \<open>
  C5 (as amended).  The rules apply in a fixed order of priority, and each class is
  the result exactly when its rule is the first that applies: reasoning when a
  reasoning marker occurs; tool call when no reasoning marker but an action marker
  occurs; confirmation request when neither occurs but a confirmation marker does;
  structured, carrying the parsed value, when no marker occurs and the span from the
  first opening brace to the last closing brace parses as JSON; text otherwise.  A
  chunk without marker that parses as one complete JSON object is among the structured
  ones and carries its own parsed value.  The chunk \<^verbatim>\<open>{"summary": "done"}\<close> is
  structured with the object that maps \<^verbatim>\<open>summary\<close> to \<^verbatim>\<open>done\<close>.
\<close>

theorem classification_priority:
  \<open>(snd (parseCliOutput text cid) = Inr (Reasoning text) \<longleftrightarrow> reasoning_marker text)
   \<and> ((\<exists>d. snd (parseCliOutput text cid) = Inr (ToolCall text d))
        \<longleftrightarrow> \<not> reasoning_marker text \<and> action_marker text)
   \<and> (snd (parseCliOutput text cid) = Inr (ConfirmationRequest text)
        \<longleftrightarrow> \<not> reasoning_marker text \<and> \<not> action_marker text \<and> confirmation_marker text)
   \<and> (snd (parseCliOutput text cid) = Inr (Structured text v)
        \<longleftrightarrow> \<not> reasoning_marker text \<and> \<not> action_marker text \<and> \<not> confirmation_marker text
            \<and> (\<exists>m. brace_span text m \<and> JSON_parse m = Inr v))
   \<and> (snd (parseCliOutput text cid) = Inr (TextOutput text)
        \<longleftrightarrow> \<not> reasoning_marker text \<and> \<not> action_marker text \<and> \<not> confirmation_marker text
            \<and> \<not> (\<exists>m v. brace_span text m \<and> JSON_parse m = Inr v))
   \<and> (JSON_parse text = Inr v \<and> is_object v
        \<and> \<not> reasoning_marker text \<and> \<not> action_marker text \<and> \<not> confirmation_marker text
       \<longrightarrow> snd (parseCliOutput text cid) = Inr (Structured text v))
   \<and> snd (parseCliOutput ''{"summary": "done"}'' cid)
        = Inr (Structured ''{"summary": "done"}''
                 (JObject [(units ''summary'', JString (units ''done''))]))\<close>
proof -
  have s: \<open>(\<exists>m. brace_span text m \<and> JSON_parse m = Inr w)
      \<longleftrightarrow> (case jsonMatch text of None \<Rightarrow> False | Some m \<Rightarrow> JSON_parse m = Inr w)\<close> for w
    by (auto simp: jsonMatch_span [symmetric] split: option.splits)
  have e1: \<open>jsonMatch ''{"summary": "done"}'' = Some ''{"summary": "done"}''\<close>
    by (simp add: jsonMatch_def)
  have e2: \<open>JSON_parse ''{"summary": "done"}''
      = Inr (JObject [(units ''summary'', JString (units ''done''))])\<close>
    by code_simp
  have e3: \<open>\<not> reasoning_marker ''{"summary": "done"}'' \<and> \<not> action_marker ''{"summary": "done"}''
      \<and> \<not> confirmation_marker ''{"summary": "done"}''\<close>
    by (simp add: marker_defs str_includes_sublist [symmetric])
  have c1: \<open>snd (parseCliOutput text cid) = Inr (Reasoning text) \<longleftrightarrow> reasoning_marker text\<close>
    by (simp add: parseCliOutput_result split: option.splits sum.splits)
  have c2: \<open>(\<exists>d. snd (parseCliOutput text cid) = Inr (ToolCall text d))
        \<longleftrightarrow> \<not> reasoning_marker text \<and> action_marker text\<close>
    by (simp add: parseCliOutput_result split: option.splits sum.splits)
  have c3: \<open>snd (parseCliOutput text cid) = Inr (ConfirmationRequest text)
        \<longleftrightarrow> \<not> reasoning_marker text \<and> \<not> action_marker text \<and> confirmation_marker text\<close>
    by (simp add: parseCliOutput_result split: option.splits sum.splits)
  have c4: \<open>snd (parseCliOutput text cid) = Inr (Structured text v)
        \<longleftrightarrow> \<not> reasoning_marker text \<and> \<not> action_marker text \<and> \<not> confirmation_marker text
            \<and> (\<exists>m. brace_span text m \<and> JSON_parse m = Inr v)\<close>
    unfolding s by (auto simp: parseCliOutput_result split: option.splits sum.splits)
  have c5: \<open>snd (parseCliOutput text cid) = Inr (TextOutput text)
        \<longleftrightarrow> \<not> reasoning_marker text \<and> \<not> action_marker text \<and> \<not> confirmation_marker text
            \<and> \<not> (\<exists>m v. brace_span text m \<and> JSON_parse m = Inr v)\<close>
    by (auto simp: parseCliOutput_result jsonMatch_span [symmetric] split: option.splits sum.splits)
  have c6: \<open>snd (parseCliOutput ''{"summary": "done"}'' cid)
        = Inr (Structured ''{"summary": "done"}''
                 (JObject [(units ''summary'', JString (units ''done''))]))\<close>
    using e3 by (simp add: parseCliOutput_result e1 e2)
  have c7: \<open>JSON_parse text = Inr v \<and> is_object v
        \<and> \<not> reasoning_marker text \<and> \<not> action_marker text \<and> \<not> confirmation_marker text
       \<longrightarrow> snd (parseCliOutput text cid) = Inr (Structured text v)\<close>
    using parse_object_span [of "text" v] c4 by blast
  from c1 c2 c3 c4 c5 c6 c7 show ?thesis by blast
qed

text \<open>The amended C5 at an object with blanks around it.\<close>

theorem classification_priority_witness:
  \<open>JSON_parse '' {"ok": true} '' = Inr (JObject [(units ''ok'', JBool True)])
   \<and> is_object (JObject [(units ''ok'', JBool True)])
   \<and> \<not> reasoning_marker '' {"ok": true} '' \<and> \<not> action_marker '' {"ok": true} ''
   \<and> \<not> confirmation_marker '' {"ok": true} ''
   \<and> snd (parseCliOutput '' {"ok": true} '' ''ab'')
       = Inr (Structured '' {"ok": true} '' (JObject [(units ''ok'', JBool True)]))\<close>
proof -
  have a: \<open>JSON_parse '' {"ok": true} '' = Inr (JObject [(units ''ok'', JBool True)])\<close>
    by code_simp
  have b: \<open>\<not> reasoning_marker '' {"ok": true} '' \<and> \<not> action_marker '' {"ok": true} ''
      \<and> \<not> confirmation_marker '' {"ok": true} ''\<close>
    by (simp add: marker_defs str_includes_sublist [symmetric])
  show ?thesis
    using a b
      classification_priority [of \<open>'' {"ok": true} ''\<close> \<open>''ab''\<close>
        \<open>JObject [(units ''ok'', JBool True)]\<close>]
    by simp
qed

text \<open>
  C5 as stated fails: the chunk \<^verbatim>\<open>ok {"a":1}\<close> holds no marker and does not parse as
  a JSON object, yet it is classified as structured, not as text.
\<close>

theorem classification_counterexample:
  \<open>\<not> reasoning_marker ''ok {"a":1}'' \<and> \<not> action_marker ''ok {"a":1}''
   \<and> \<not> confirmation_marker ''ok {"a":1}''
   \<and> JSON_parse ''ok {"a":1}'' = Inl syntax_error
   \<and> snd (parseCliOutput ''ok {"a":1}'' ''ab'')
       = Inr (Structured ''ok {"a":1}'' (JObject [(units ''a'', JNumber ''1'')]))\<close>
proof -
  have e1: \<open>jsonMatch ''ok {"a":1}'' = Some ''{"a":1}''\<close>
    by (simp add: jsonMatch_def)
  have e2: \<open>JSON_parse ''{"a":1}'' = Inr (JObject [(units ''a'', JNumber ''1'')])\<close>
    by code_simp
  have e3: \<open>\<not> reasoning_marker ''ok {"a":1}'' \<and> \<not> action_marker ''ok {"a":1}''
      \<and> \<not> confirmation_marker ''ok {"a":1}''\<close>
    by (simp add: marker_defs str_includes_sublist [symmetric])
  have e4: \<open>JSON_parse ''ok {"a":1}'' = Inl syntax_error\<close>
    by code_simp
  show ?thesis
    using e3 e4 by (simp add: parseCliOutput_result e1 e2)
qed



subsection \<open>Runs of the provider\<close>

lemma ensureAuthentication_effects:
  "yielded (fst (ensureAuthentication host cid)) = []"
  "confirmations (fst (ensureAuthentication host cid)) = []"
  "spawned (fst (ensureAuthentication host cid)) = []"
  by (simp_all add: ensureAuthentication_def auth_failed_def auth_verified_def logError_def
      logInfo_def Let_def split: sum.splits option.splits)

lemma executeStatefulCli_confirmations:
  "confirmations (fst (executeStatefulCli opts env prompt cid evs ending)) = []"
proof (cases ending)
  case (Close code)
  show ?thesis
    unfolding Close
    by (simp add: executeStatefulCli_close Let_def confirmations_append foldl_handle_fields
        start_state_fields logInfo_def logError_def)
next
  case (ProcError e)
  show ?thesis
    unfolding ProcError
    by (simp add: executeStatefulCli_def Let_def confirmations_append foldl_handle_fields
        start_state_fields logInfo_def logError_def)
qed

lemma executeStatefulCli_spawned:
  "spawned (fst (executeStatefulCli opts env prompt cid evs ending)) =
     [(or_string (geminiCliPath opts) ''gemini'', buildCliArguments opts, spawn_env opts env cid)]"
proof (cases ending)
  case (Close code)
  show ?thesis
    unfolding Close
    by (simp add: executeStatefulCli_close Let_def spawned_append foldl_handle_fields
        start_state_fields logInfo_def logError_def)
next
  case (ProcError e)
  show ?thesis
    unfolding ProcError
    by (simp add: executeStatefulCli_def Let_def spawned_append foldl_handle_fields
        start_state_fields logInfo_def logError_def)
qed

lemma createMessage_authenticated:
  assumes "snd (ensureAuthentication host (correlationId_of random)) = None"
  shows "yielded (fst (createMessage opts host env random sp msgs evs ending))
           = yielded (fst (executeStatefulCli opts env (formatConversation sp msgs)
                (correlationId_of random) evs ending))"
    and "spawned (fst (createMessage opts host env random sp msgs evs ending))
           = [(or_string (geminiCliPath opts) ''gemini'', buildCliArguments opts,
               spawn_env opts env (correlationId_of random))]"
    and "snd (createMessage opts host env random sp msgs evs ending)
           = map_option createUserFriendlyError
               (snd (executeStatefulCli opts env (formatConversation sp msgs)
                  (correlationId_of random) evs ending))"
  using assms ensureAuthentication_effects [of host "correlationId_of random"]
    executeStatefulCli_spawned [of opts env "formatConversation sp msgs" "correlationId_of random" evs ending]
  by (auto simp: createMessage_def Let_def yielded_append spawned_append logError_def
      split: prod.splits option.splits)

lemma createMessage_confirmations:
  "confirmations (fst (createMessage opts host env random sp msgs evs ending)) = []"
  using ensureAuthentication_effects(2) [of host "correlationId_of random"]
    executeStatefulCli_confirmations [of opts env "formatConversation sp msgs" "correlationId_of random" evs ending]
  by (auto simp: createMessage_def Let_def confirmations_append logError_def
      split: prod.splits option.splits)








lemma example_cid: "correlationId_of example_random = ''0123456789abcdef''"
  by (simp add: correlationId_of_def example_random_def to_hex_def hex_byte_def hex_digit_def)


lemmas run_defs =
  createMessage_def ensureAuthentication_def auth_verified_def auth_failed_def
  executeStatefulCli_def after_close_def start_state_def spawn_env_def emit_def
  onStdoutData_def onStderrData_def onTimeout_def default_options_def or_string_def
  or_number_def buildCliArguments_def logInfo_def logWarning_def logError_def new_Error_def
  show_code_def estimateTokens_def formatConversation_def createUserFriendlyError_def
  example_host_def

lemma spawn_env_lookup:
  "map_of (spawn_env opts env cid) k =
     (if k = ''GEMINI_CLI_MODE''
      then Some (if useJsonMode opts = Some True then ''json'' else ''interactive'')
      else if k = ''GEMINI_CLI_CORRELATION_ID'' then Some cid
      else map_of env k)"
  by (simp add: spawn_env_def update_conv')

lemma buildCliArguments_subset:
  "set (buildCliArguments opts)
     \<subseteq> {''--json'', ''--interactive'', ''--confirm-actions'', ''--model''}
         \<union> set_option (apiModelId opts)"
  by (auto simp: buildCliArguments_def split: option.splits if_splits)

lemma hex_digit_set: "hex_digit d \<in> set ''0123456789abcdef''"
proof -
  have "d mod 16 < length ''0123456789abcdef''" by simp
  then show ?thesis unfolding hex_digit_def by (rule nth_mem)
qed

lemma to_hex_chars: "c \<in> set (to_hex bytes) \<Longrightarrow> c \<in> set ''0123456789abcdef''"
proof -
  define S where "S = set ''0123456789abcdef''"
  have h: "hex_digit d \<in> S" for d
    unfolding S_def by (rule hex_digit_set)
  have "set (hex_byte b) \<subseteq> S" for b
    using h [of "of_char b div 16"] h [of "of_char b"] by (simp add: hex_byte_def)
  then have "set (to_hex bytes) \<subseteq> S"
    by (auto simp: to_hex_def)
  then show "c \<in> set (to_hex bytes) \<Longrightarrow> c \<in> set ''0123456789abcdef''"
    unfolding S_def by blast
qed

lemma correlationId_not_flag:
  "correlationId_of random \<notin> {''--json'', ''--interactive'', ''--confirm-actions'', ''--model''}"
proof
  assume "correlationId_of random \<in> {''--json'', ''--interactive'', ''--confirm-actions'', ''--model''}"
  then have "CHR ''-'' \<in> set (to_hex random)"
    unfolding correlationId_of_def by auto
  then have "CHR ''-'' \<in> set ''0123456789abcdef''"
    by (rule to_hex_chars)
  then show False by simp
qed

subsection \<open>Dangerous tool calls and confirmation\<close>

text \<open>
  C1 (the code at the failing input).  No run of \<^verbatim>\<open>createMessage\<close> shows the
  confirmation dialog, whatever the process writes: \<^verbatim>\<open>handleUserConfirmation\<close>,
  which approves only when the button \<^verbatim>\<open>Proceed\<close> is pressed, is never called.  In
  the run below the process writes the dangerous tool call \<^verbatim>\<open>Tool: rm -rf ./drafts\<close>
  and exits with code 0; the handler logs a warning, and the text of the tool call is
  yielded to the consumer with no decision obtained.
\<close>

theorem dangerous_tool_call_unconfirmed:
  "confirmations (fst (createMessage opts host env random sp msgs evs ending)) = []
   \<and> snd (handleUserConfirmation action cid answer) = (answer = Inr (Some ''Proceed''))
   \<and> createMessage default_options example_host [] example_random [] [(User, Plain ''clean up'')]
        [StdoutData ''Tool: rm -rf ./drafts\<newline>''] (Close (Some 0))
      = ([GetSession False,
          ConsoleLog ''[GeminiCLI:0123456789abcdef] INFO: Authentication verified'',
          ConsoleLog ''[GeminiCLI:0123456789abcdef] INFO: Starting CLI execution with path: gemini'',
          Spawn ''gemini'' [''--interactive'', ''--confirm-actions'']
            [(''GEMINI_CLI_CORRELATION_ID'', ''0123456789abcdef''),
             (''GEMINI_CLI_MODE'', ''interactive'')],
          SetTimeout 60000, StdinWrite ''Human: clean up\<newline>'', StdinEnd,
          ConsoleLog ''[GeminiCLI:0123456789abcdef] INFO: Detected tool call in CLI output'',
          ConsoleWarn ''[GeminiCLI:0123456789abcdef] WARN: Potentially dangerous tool call detected'',
          ClearTimeout,
          ConsoleLog ''[GeminiCLI:0123456789abcdef] INFO: CLI process completed with exit code: 0'',
          Yield (TextChunk ''Tool: rm -rf ./drafts\<newline>''), Yield (UsageChunk 4 6 0 0),
          ConsoleLog ''[GeminiCLI:0123456789abcdef] INFO: CLI execution completed successfully''],
         None)"
proof -
  have a: "requiresUserConfirmation ''Tool: rm -rf ./drafts\<newline>''"
    by code_simp
  have b: "trim ''Human: clean up\<newline>\<newline>'' = ''Human: clean up''"
    by (simp add: trim_def js_space_def)
  have c: "trim ''Tool: rm -rf ./drafts\<newline>'' \<noteq> []"
    by (simp add: trim_def js_space_def)
  have d: "show_nat 0 = ''0''"
    by (simp add: show_nat.simps digit_char_def)
  have e: "snd (handleUserConfirmation action cid answer) = (answer = Inr (Some ''Proceed''))"
    by (cases answer) (simp_all add: handleUserConfirmation_def Let_def)
  show ?thesis
    by (simp add: createMessage_confirmations e)
      (simp add: run_defs example_cid parseCliOutput_def a b c d)
qed

subsection \<open>When the stream yields\<close>

text \<open>
  C3 (the code at the failing input).  While the process runs, nothing is yielded: the
  state the handlers have built when the process ends holds no yielded chunk, for any
  sequence of events; the chunks, one per chunk of standard output and in the order of
  arrival, sit in the local list \<^verbatim>\<open>streamChunks\<close>, which nothing reads.  A run yields
  at most two chunks, however many chunks the process wrote.  In the run below the
  process writes two chunks; the stream yields their concatenation as one text chunk,
  after the process has closed, and the usage chunk.
\<close>

theorem output_buffered_until_exit:
  "yielded (effects (foldl (handle cid (or_number (timeout opts) 60000))
              (start_state opts env prompt cid) evs)) = []
   \<and> streamChunks (foldl (handle cid (or_number (timeout opts) 60000))
              (start_state opts env prompt cid) evs) = map TextChunk (stdout_chunks evs)
   \<and> length (yielded (fst (executeStatefulCli opts env prompt cid evs ending))) \<le> 2
   \<and> executeStatefulCli default_options [] ''hi'' ''00''
        [StdoutData ''Thinking: a\<newline>'', StdoutData ''b\<newline>''] (Close (Some 0))
      = ([ConsoleLog ''[GeminiCLI:00] INFO: Starting CLI execution with path: gemini'',
          Spawn ''gemini'' [''--interactive'', ''--confirm-actions'']
            [(''GEMINI_CLI_CORRELATION_ID'', ''00''), (''GEMINI_CLI_MODE'', ''interactive'')],
          SetTimeout 60000, StdinWrite ''hi\<newline>'', StdinEnd,
          ConsoleLog ''[GeminiCLI:00] INFO: Detected reasoning phase in CLI output'',
          ClearTimeout,
          ConsoleLog ''[GeminiCLI:00] INFO: CLI process completed with exit code: 0'',
          Yield (TextChunk ''Thinking: a\<newline>b\<newline>''), Yield (UsageChunk 1 4 0 0),
          ConsoleLog ''[GeminiCLI:00] INFO: CLI execution completed successfully''],
         None)"
proof -
  have a: "length (yielded (fst (executeStatefulCli opts env prompt cid evs ending))) \<le> 2"
  proof (cases ending)
    case (Close code)
    show ?thesis unfolding Close by (simp add: yielded_close)
  next
    case (ProcError e)
    show ?thesis unfolding ProcError by (simp add: yielded_error)
  qed
  have b: "jsonMatch ''b\<newline>'' = None"
    by (simp add: jsonMatch_def)
  have c: "trim ''Thinking: a\<newline>b\<newline>'' \<noteq> []"
    by (simp add: trim_def js_space_def)
  have d: "show_nat 0 = ''0''"
    by (simp add: show_nat.simps digit_char_def)
  show ?thesis
    using a
    by (simp add: foldl_handle_fields start_state_fields collected_chunks)
      (simp add: run_defs parseCliOutput_def try_structured_def b c d)
qed

subsection \<open>Timeout and correlation id\<close>




subsection \<open>What the process is given\<close>

text \<open>
  C7 as stated fails.  The host holds a session with the token \<^verbatim>\<open>secret-token\<close> and
  authentication succeeds, yet the environment of the spawned process holds only the
  correlation id and the mode: the token is not injected.
\<close>

theorem credential_env_counterexample:
  "snd (ensureAuthentication example_host (correlationId_of example_random)) = None
   \<and> accessToken example_session = ''secret-token''
   \<and> spawned (fst (createMessage default_options example_host [] example_random []
         [(User, Plain ''clean up'')] [StdoutData ''done''] (Close (Some 0))))
       = [(''gemini'', [''--interactive'', ''--confirm-actions''],
           [(''GEMINI_CLI_CORRELATION_ID'', ''0123456789abcdef''),
            (''GEMINI_CLI_MODE'', ''interactive'')])]
   \<and> ''secret-token'' \<notin> snd ` set [(''GEMINI_CLI_CORRELATION_ID'', ''0123456789abcdef''),
                                      (''GEMINI_CLI_MODE'', ''interactive'')]"
proof -
  have a: "snd (ensureAuthentication example_host c) = None" for c
    by (simp add: ensureAuthentication_def example_host_def auth_verified_def)
  show ?thesis
    by (simp add: createMessage_authenticated [OF a] a example_cid example_session_def)
      (simp add: default_options_def buildCliArguments_def or_string_def spawn_env_def)
qed

text \<open>
  C7 (as amended).  Every run spawns one process.  Its environment is the environment
  of the host in which \<^verbatim>\<open>GEMINI_CLI_CORRELATION_ID\<close> is set to the correlation id and
  \<^verbatim>\<open>GEMINI_CLI_MODE\<close> to the mode; every other variable is inherited unchanged, and
  the session obtained by \<^verbatim>\<open>ensureAuthentication\<close> plays no part in it.  The argument
  vector holds only the fixed flags and the configured model id, so it holds the
  correlation id only if the configured model id is that very string.
\<close>

theorem spawn_environment:
  "spawned (fst (executeStatefulCli opts env prompt cid evs ending))
     = [(or_string (geminiCliPath opts) ''gemini'', buildCliArguments opts, spawn_env opts env cid)]
   \<and> map_of (spawn_env opts env cid) ''GEMINI_CLI_CORRELATION_ID'' = Some cid
   \<and> map_of (spawn_env opts env cid) ''GEMINI_CLI_MODE''
       = Some (if useJsonMode opts = Some True then ''json'' else ''interactive'')
   \<and> (k \<noteq> ''GEMINI_CLI_CORRELATION_ID'' \<and> k \<noteq> ''GEMINI_CLI_MODE'' \<longrightarrow>
        map_of (spawn_env opts env cid) k = map_of env k)
   \<and> (snd (ensureAuthentication host (correlationId_of random)) = None \<longrightarrow>
        spawned (fst (createMessage opts host env random sp msgs evs ending))
          = [(or_string (geminiCliPath opts) ''gemini'', buildCliArguments opts,
              spawn_env opts env (correlationId_of random))])
   \<and> set (buildCliArguments opts)
       \<subseteq> {''--json'', ''--interactive'', ''--confirm-actions'', ''--model''}
           \<union> set_option (apiModelId opts)
   \<and> (correlationId_of random \<in> set (buildCliArguments opts) \<longrightarrow>
        apiModelId opts = Some (correlationId_of random))"
proof -
  have "correlationId_of random \<in> set (buildCliArguments opts) \<longrightarrow>
        apiModelId opts = Some (correlationId_of random)"
    using buildCliArguments_subset [of opts] correlationId_not_flag [of random]
    by (cases "apiModelId opts") auto
  then show ?thesis
    using buildCliArguments_subset [of opts]
    by (simp add: executeStatefulCli_spawned spawn_env_lookup createMessage_authenticated)
qed

text \<open>
  The amended C7 at a run with a model id and one inherited variable, and at a
  configuration whose model id is the correlation id.
\<close>

theorem spawn_environment_witness:
  "snd (ensureAuthentication example_host (correlationId_of example_random)) = None
   \<and> spawned (fst (createMessage (default_options\<lparr>apiModelId := Some ''gemini-pro''\<rparr>) example_host
         [(''HOME'', ''/home/u'')] example_random [] [(User, Plain ''clean up'')] [] (Close (Some 0))))
       = [(''gemini'', [''--interactive'', ''--confirm-actions'', ''--model'', ''gemini-pro''],
           [(''HOME'', ''/home/u''), (''GEMINI_CLI_CORRELATION_ID'', ''0123456789abcdef''),
            (''GEMINI_CLI_MODE'', ''interactive'')])]
   \<and> ''HOME'' \<noteq> ''GEMINI_CLI_CORRELATION_ID'' \<and> ''HOME'' \<noteq> ''GEMINI_CLI_MODE''
   \<and> map_of (spawn_env (default_options\<lparr>apiModelId := Some ''gemini-pro''\<rparr>)
         [(''HOME'', ''/home/u'')] ''0123456789abcdef'') ''HOME'' = Some ''/home/u''
   \<and> correlationId_of example_random
       \<notin> set (buildCliArguments (default_options\<lparr>apiModelId := Some ''gemini-pro''\<rparr>))
   \<and> correlationId_of example_random
       \<in> set (buildCliArguments (default_options\<lparr>apiModelId := Some ''0123456789abcdef''\<rparr>))
   \<and> apiModelId (default_options\<lparr>apiModelId := Some ''0123456789abcdef''\<rparr>)
       = Some (correlationId_of example_random)"
proof -
  have a: "snd (ensureAuthentication example_host (correlationId_of example_random)) = None"
    by (simp add: ensureAuthentication_def example_host_def auth_verified_def)
  have d: "correlationId_of example_random
       \<in> set (buildCliArguments (default_options\<lparr>apiModelId := Some ''0123456789abcdef''\<rparr>))"
    by (simp add: example_cid default_options_def buildCliArguments_def)
  have c: "or_string (geminiCliPath (default_options\<lparr>apiModelId := Some ''gemini-pro''\<rparr>)) ''gemini''
             = ''gemini''"
    "buildCliArguments (default_options\<lparr>apiModelId := Some ''gemini-pro''\<rparr>)
       = [''--interactive'', ''--confirm-actions'', ''--model'', ''gemini-pro'']"
    "spawn_env (default_options\<lparr>apiModelId := Some ''gemini-pro''\<rparr>) [(''HOME'', ''/home/u'')]
       ''0123456789abcdef''
       = [(''HOME'', ''/home/u''), (''GEMINI_CLI_CORRELATION_ID'', ''0123456789abcdef''),
          (''GEMINI_CLI_MODE'', ''interactive'')]"
    by (simp_all add: default_options_def or_string_def buildCliArguments_def spawn_env_def)
  show ?thesis
    using a c d
      spawn_environment [of "default_options\<lparr>apiModelId := Some ''gemini-pro''\<rparr>"
        "[(''HOME'', ''/home/u'')]" "''p''" "''0123456789abcdef''" "[]" "Close (Some 0)"
        "''HOME''" example_host example_random "[]" "[(User, Plain ''clean up'')]"]
      spawn_environment [of "default_options\<lparr>apiModelId := Some ''0123456789abcdef''\<rparr>"
        "[]" "''p''" "''0123456789abcdef''" "[]" "Close (Some 0)"
        "''HOME''" example_host example_random "[]" "[(User, Plain ''clean up'')]"]
    by (simp add: example_cid)
qed

subsection \<open>Credential resolution\<close>

lemma tryApiKeyAuthentication_cases:
  "tryApiKeyAuthentication env =
     (case environment_key env of
        None \<Rightarrow> ([], Inr None)
      | Some k \<Rightarrow>
          ([SecretStore ''gemini-oauth-session'' (apiKeySession k) None],
           case storeFailure env of Some e \<Rightarrow> Inl e | None \<Rightarrow> Inr (Some (apiKeySession k))))"
  by (simp add: tryApiKeyAuthentication_def environment_key_def split: option.splits)

lemma performOAuthFlow_cases:
  "performOAuthFlow env sc =
     (case oauthFlow env of
        Inl e \<Rightarrow> ([OAuthConsent sc], Inl e)
      | Inr tokens \<Rightarrow>
          ([OAuthConsent sc,
            SecretStore ''gemini-oauth-session'' (oauthSession (Date_now env) tokens)
              (refresh_token tokens)],
           case storeFailure env of
             Some e \<Rightarrow> Inl e
           | None \<Rightarrow> Inr (oauthSession (Date_now env) tokens)))"
  by (simp add: performOAuthFlow_def handleCallback_def Let_def split: sum.splits)

lemma createSession_active:
  assumes "active_session env = Some s"
  shows "createSession env sc =
     (updateStatusBar ''Authenticating...'' # fst (getStoredSession env)
        @ [updateStatusBar ''Authenticated''],
      Inr s)"
  using assms
  by (cases "stored env")
    (simp_all add: createSession_def getStoredSession_def isValidSession_def
      active_session_def split: if_splits)

lemma createSession_inactive:
  assumes "active_session env = None"
  shows "createSession env sc =
     (case tryApiKeyAuthentication env of
        (es2, Inl error) \<Rightarrow>
          session_failed (updateStatusBar ''Authenticating...'' # fst (getStoredSession env) @ es2)
            error
      | (es2, Inr (Some keySession)) \<Rightarrow>
          (updateStatusBar ''Authenticating...'' # fst (getStoredSession env) @ es2
             @ [updateStatusBar ''Authenticated (API Key)''],
           Inr keySession)
      | (es2, Inr None) \<Rightarrow>
          (case performOAuthFlow env sc of
             (es3, Inl error) \<Rightarrow>
               session_failed
                 (updateStatusBar ''Authenticating...'' # fst (getStoredSession env) @ es2 @ es3)
                 error
           | (es3, Inr session) \<Rightarrow>
               (updateStatusBar ''Authenticating...'' # fst (getStoredSession env) @ es2 @ es3
                  @ [updateStatusBar ''Authenticated'', SessionsChanged [session] [] []],
                Inr session)))"
  using assms
  by (cases "stored env")
    (simp_all add: createSession_def getStoredSession_def isValidSession_def
      active_session_def tryAdcAuthentication_def split: if_splits)

lemma createSession_key:
  assumes "active_session env = None" and "environment_key env = Some k"
  shows "createSession env sc =
     (case storeFailure env of
        None \<Rightarrow>
          (updateStatusBar ''Authenticating...'' # fst (getStoredSession env)
             @ [SecretStore ''gemini-oauth-session'' (apiKeySession k) None,
                updateStatusBar ''Authenticated (API Key)''],
           Inr (apiKeySession k))
      | Some e \<Rightarrow>
          (updateStatusBar ''Authenticating...'' # fst (getStoredSession env)
             @ [SecretStore ''gemini-oauth-session'' (apiKeySession k) None,
                updateStatusBar ''Authentication Failed'',
                AuthConsoleError ''Error creating session:'' e],
           Inl (new_Error (''Authentication failed: '' @ err_message e))))"
  by (simp add: createSession_inactive assms tryApiKeyAuthentication_cases session_failed_def
      split: option.splits)

lemma createSession_oauth:
  assumes "active_session env = None" and "environment_key env = None"
  shows "createSession env sc =
     (case oauthFlow env of
        Inl e \<Rightarrow>
          (updateStatusBar ''Authenticating...'' # fst (getStoredSession env)
             @ [OAuthConsent sc, updateStatusBar ''Authentication Failed'',
                AuthConsoleError ''Error creating session:'' e],
           Inl (new_Error (''Authentication failed: '' @ err_message e)))
      | Inr tokens \<Rightarrow>
          (case storeFailure env of
             None \<Rightarrow>
               (updateStatusBar ''Authenticating...'' # fst (getStoredSession env)
                  @ [OAuthConsent sc,
                     SecretStore ''gemini-oauth-session'' (oauthSession (Date_now env) tokens)
                       (refresh_token tokens),
                     updateStatusBar ''Authenticated'',
                     SessionsChanged [oauthSession (Date_now env) tokens] [] []],
                Inr (oauthSession (Date_now env) tokens))
           | Some e \<Rightarrow>
               (updateStatusBar ''Authenticating...'' # fst (getStoredSession env)
                  @ [OAuthConsent sc,
                     SecretStore ''gemini-oauth-session'' (oauthSession (Date_now env) tokens)
                       (refresh_token tokens),
                     updateStatusBar ''Authentication Failed'',
                     AuthConsoleError ''Error creating session:'' e],
                Inl (new_Error (''Authentication failed: '' @ err_message e)))))"
  by (simp add: createSession_inactive assms tryApiKeyAuthentication_cases
      performOAuthFlow_cases session_failed_def split: option.splits sum.splits)

lemma stored_effects:
  "OAuthConsent sc \<notin> set (fst (getStoredSession env))"
  "SecretStore key t r \<notin> set (fst (getStoredSession env))"
  "StatusBar text \<notin> set (fst (getStoredSession env))"
  by (simp_all add: getStoredSession_def split: stored_read.splits)

text \<open>
  C6 (the code, and the failing input).  In \<^verbatim>\<open>createSession\<close> the tier of the
  ambient default credentials never yields a session: \<^verbatim>\<open>tryAdcAuthentication\<close>
  returns null whatever the surroundings are, and no call reports
  \<^verbatim>\<open>Authenticated (ADC)\<close>.  The other tiers are tried in order, the first that
  yields a session ending the call: the stored session when it is active; else the
  session built from the API key of the environment, unless writing it to the secret
  storage is rejected, which makes the call fail without trying a later tier; else the
  OAuth consent flow, whose session is returned once it has been written to the secret
  storage, and whose failure makes the call fail with an authentication error and no
  session.  The secret storage is written to in the second and in the fourth tier only,
  and the consent flow is started only when the first two tiers found nothing.  With no
  stored session, no API key and a consent flow that runs out of time, the call goes from
  the second tier straight to the consent flow and fails.
\<close>

theorem credential_order:
  "tryAdcAuthentication env = None
   \<and> updateStatusBar ''Authenticated (ADC)'' \<notin> set (fst (createSession env sc))
   \<and> (active_session env = Some s \<longrightarrow> snd (createSession env sc) = Inr s)
   \<and> (active_session env = None \<and> environment_key env = Some k \<longrightarrow>
        accessToken (apiKeySession k) = k
        \<and> snd (createSession env sc)
            = (case storeFailure env of
                 None \<Rightarrow> Inr (apiKeySession k)
               | Some e \<Rightarrow> Inl (new_Error (''Authentication failed: '' @ err_message e))))
   \<and> (active_session env = None \<and> environment_key env = None \<longrightarrow>
        snd (createSession env sc)
            = (case oauthFlow env of
                 Inl e \<Rightarrow> Inl (new_Error (''Authentication failed: '' @ err_message e))
               | Inr tokens \<Rightarrow>
                   (case storeFailure env of
                      None \<Rightarrow> Inr (oauthSession (Date_now env) tokens)
                    | Some e \<Rightarrow> Inl (new_Error (''Authentication failed: '' @ err_message e)))))
   \<and> ((\<exists>t r. SecretStore ''gemini-oauth-session'' t r \<in> set (fst (createSession env sc)))
        \<longleftrightarrow> active_session env = None
            \<and> (environment_key env \<noteq> None \<or> (\<exists>tokens. oauthFlow env = Inr tokens)))
   \<and> (OAuthConsent sc \<in> set (fst (createSession env sc))
        \<longleftrightarrow> active_session env = None \<and> environment_key env = None)
   \<and> createSession failing_env SCOPES
       = ([StatusBar ''$(key) Gemini: Authenticating...'', OAuthConsent SCOPES,
           StatusBar ''$(key) Gemini: Authentication Failed'',
           AuthConsoleError ''Error creating session:'' (new_Error ''Authentication timeout'')],
          Inl (new_Error ''Authentication failed: Authentication timeout''))"
proof -
  have a: "tryAdcAuthentication env = None"
    by (simp add: tryAdcAuthentication_def)
  have b: "updateStatusBar ''Authenticated (ADC)'' \<notin> set (fst (createSession env sc))"
  proof (cases "active_session env")
    case (Some s')
    then show ?thesis
      using stored_effects(3) [of _ env]
      by (simp add: createSession_active updateStatusBar_def)
  next
    case None
    show ?thesis
    proof (cases "environment_key env")
      case (Some k')
      then show ?thesis
        using stored_effects(3) [of _ env] None
        by (simp add: createSession_key updateStatusBar_def split: option.splits)
    next
      case none: None
      then show ?thesis
        using stored_effects(3) [of _ env] None
        by (simp add: createSession_oauth updateStatusBar_def split: option.splits sum.splits)
    qed
  qed
  have c: "active_session env = Some s \<longrightarrow> snd (createSession env sc) = Inr s"
    by (simp add: createSession_active)
  have d: "active_session env = None \<and> environment_key env = Some k \<longrightarrow>
        accessToken (apiKeySession k) = k
        \<and> snd (createSession env sc)
            = (case storeFailure env of
                 None \<Rightarrow> Inr (apiKeySession k)
               | Some e \<Rightarrow> Inl (new_Error (''Authentication failed: '' @ err_message e)))"
    by (simp add: createSession_key apiKeySession_def split: option.splits)
  have e: "active_session env = None \<and> environment_key env = None \<longrightarrow>
        snd (createSession env sc)
            = (case oauthFlow env of
                 Inl e \<Rightarrow> Inl (new_Error (''Authentication failed: '' @ err_message e))
               | Inr tokens \<Rightarrow>
                   (case storeFailure env of
                      None \<Rightarrow> Inr (oauthSession (Date_now env) tokens)
                    | Some e \<Rightarrow> Inl (new_Error (''Authentication failed: '' @ err_message e))))"
    by (simp add: createSession_oauth split: option.splits sum.splits)
  have f: "(\<exists>t r. SecretStore ''gemini-oauth-session'' t r \<in> set (fst (createSession env sc)))
        \<longleftrightarrow> active_session env = None
            \<and> (environment_key env \<noteq> None \<or> (\<exists>tokens. oauthFlow env = Inr tokens))"
  proof (cases "active_session env")
    case (Some s')
    then show ?thesis
      using stored_effects(2) [of _ _ _ env]
      by (simp add: createSession_active updateStatusBar_def)
  next
    case None
    show ?thesis
    proof (cases "environment_key env")
      case (Some k')
      then show ?thesis
        using None by (auto simp: createSession_key split: option.splits)
    next
      case none: None
      then show ?thesis
        using stored_effects(2) [of _ _ _ env] None
        by (auto simp: createSession_oauth updateStatusBar_def split: option.splits sum.splits)
    qed
  qed
  have g: "OAuthConsent sc \<in> set (fst (createSession env sc))
        \<longleftrightarrow> active_session env = None \<and> environment_key env = None"
  proof (cases "active_session env")
    case (Some s')
    then show ?thesis
      using stored_effects(1) [of sc env]
      by (simp add: createSession_active updateStatusBar_def)
  next
    case None
    show ?thesis
    proof (cases "environment_key env")
      case (Some k')
      then show ?thesis
        using stored_effects(1) [of sc env] None
        by (simp add: createSession_key updateStatusBar_def split: option.splits)
    next
      case none: None
      then show ?thesis
        using None by (auto simp: createSession_oauth split: option.splits sum.splits)
    qed
  qed
  have h0: "active_session failing_env = None" "environment_key failing_env = None"
    "oauthFlow failing_env = Inl (new_Error ''Authentication timeout'')"
    by (simp_all add: failing_env_def active_session_def environment_key_def)
  have h: "createSession failing_env SCOPES
       = ([StatusBar ''$(key) Gemini: Authenticating...'', OAuthConsent SCOPES,
           StatusBar ''$(key) Gemini: Authentication Failed'',
           AuthConsoleError ''Error creating session:'' (new_Error ''Authentication timeout'')],
          Inl (new_Error ''Authentication failed: Authentication timeout''))"
    by (simp add: createSession_oauth [OF h0(1) h0(2)] h0(3) updateStatusBar_def
        new_Error_def)
      (simp add: getStoredSession_def failing_env_def)
  from a b c d e f g h show ?thesis by blast
qed

text \<open>
  C6 at a call of each kind: the stored session is active; it is not and the environment
  holds a key, written to the secret storage with and without success; neither holds and
  the consent flow yields tokens, or runs out of time.
\<close>

theorem credential_order_witness:
  "active_session example_env = Some example_session
   \<and> snd (createSession example_env SCOPES) = Inr example_session
   \<and> active_session (example_env\<lparr>stored := NoData\<rparr>) = None
   \<and> environment_key (example_env\<lparr>stored := NoData\<rparr>) = Some ''key-from-env''
   \<and> snd (createSession (example_env\<lparr>stored := NoData\<rparr>) SCOPES)
       = Inr (apiKeySession ''key-from-env'')
   \<and> createSession (example_env\<lparr>stored := NoData,
                                 storeFailure := Some (new_Error ''write failed'')\<rparr>) SCOPES
       = ([StatusBar ''$(key) Gemini: Authenticating...'',
           SecretStore ''gemini-oauth-session'' (apiKeySession ''key-from-env'') None,
           StatusBar ''$(key) Gemini: Authentication Failed'',
           AuthConsoleError ''Error creating session:'' (new_Error ''write failed'')],
          Inl (new_Error ''Authentication failed: write failed''))
   \<and> active_session failing_env = None \<and> environment_key failing_env = None
   \<and> snd (createSession failing_env SCOPES)
       = Inl (new_Error ''Authentication failed: Authentication timeout'')
   \<and> createSession (failing_env\<lparr>oauthFlow := Inr example_tokens\<rparr>) SCOPES
       = ([StatusBar ''$(key) Gemini: Authenticating...'', OAuthConsent SCOPES,
           SecretStore ''gemini-oauth-session''
             \<lparr>session_id = ''gemini-oauth-1700000000000'', accessToken = ''fresh-token'',
              account_id = ''oauth-user'', account_label = ''Google OAuth'', scopes = SCOPES\<rparr>
             (Some ''refresh-token''),
           StatusBar ''$(key) Gemini: Authenticated'',
           SessionsChanged
             [\<lparr>session_id = ''gemini-oauth-1700000000000'', accessToken = ''fresh-token'',
               account_id = ''oauth-user'', account_label = ''Google OAuth'', scopes = SCOPES\<rparr>]
             [] []],
          Inr \<lparr>session_id = ''gemini-oauth-1700000000000'', accessToken = ''fresh-token'',
               account_id = ''oauth-user'', account_label = ''Google OAuth'', scopes = SCOPES\<rparr>)"
proof -
  let ?key = "example_env\<lparr>stored := NoData\<rparr>"
  let ?full = "example_env\<lparr>stored := NoData, storeFailure := Some (new_Error ''write failed'')\<rparr>"
  let ?oauth = "failing_env\<lparr>oauthFlow := Inr example_tokens\<rparr>"
  have a: "active_session example_env = Some example_session"
    by (simp add: example_env_def example_session_def active_session_def)
  have b: "active_session ?key = None" "environment_key ?key = Some ''key-from-env''"
    "storeFailure ?key = None"
    by (simp_all add: example_env_def active_session_def environment_key_def)
  have c: "active_session ?full = None" "environment_key ?full = Some ''key-from-env''"
    "storeFailure ?full = Some (new_Error ''write failed'')"
    by (simp_all add: example_env_def active_session_def environment_key_def)
  have d: "active_session failing_env = None" "environment_key failing_env = None"
    "oauthFlow failing_env = Inl (new_Error ''Authentication timeout'')"
    by (simp_all add: failing_env_def active_session_def environment_key_def)
  have e: "active_session ?oauth = None" "environment_key ?oauth = None"
    "oauthFlow ?oauth = Inr example_tokens" "storeFailure ?oauth = None"
    "Date_now ?oauth = 1700000000000"
    by (simp_all add: failing_env_def active_session_def environment_key_def)
  have n: "show_nat 1700000000000 = ''1700000000000''"
    by (simp add: show_nat.simps digit_char_def)
  have s: "oauthSession 1700000000000 example_tokens
       = \<lparr>session_id = ''gemini-oauth-1700000000000'', accessToken = ''fresh-token'',
          account_id = ''oauth-user'', account_label = ''Google OAuth'', scopes = SCOPES\<rparr>"
    by (simp add: oauthSession_def example_tokens_def n)
  have r: "refresh_token example_tokens = Some ''refresh-token''"
    by (simp add: example_tokens_def)
  have f1: "fst (createSession ?full SCOPES)
       = [StatusBar ''$(key) Gemini: Authenticating...'',
           SecretStore ''gemini-oauth-session'' (apiKeySession ''key-from-env'') None,
           StatusBar ''$(key) Gemini: Authentication Failed'',
           AuthConsoleError ''Error creating session:'' (new_Error ''write failed'')]"
    by (simp add: createSession_key [OF c(1) c(2)] c(3) updateStatusBar_def)
      (simp add: getStoredSession_def example_env_def)
  have f2: "fst (createSession ?oauth SCOPES)
       = [StatusBar ''$(key) Gemini: Authenticating...'', OAuthConsent SCOPES,
           SecretStore ''gemini-oauth-session'' (oauthSession 1700000000000 example_tokens)
             (Some ''refresh-token''),
           StatusBar ''$(key) Gemini: Authenticated'',
           SessionsChanged [oauthSession 1700000000000 example_tokens] [] []]"
    by (simp add: createSession_oauth [OF e(1) e(2)] e(3) e(4) e(5) r updateStatusBar_def)
      (simp add: getStoredSession_def failing_env_def)
  have t1: "snd (createSession example_env SCOPES) = Inr example_session"
    using a credential_order [of example_env SCOPES example_session "''k''"] by simp
  have t2: "snd (createSession ?key SCOPES) = Inr (apiKeySession ''key-from-env'')"
    using b credential_order [of ?key SCOPES example_session "''key-from-env''"] by simp
  have t3: "snd (createSession ?full SCOPES)
       = Inl (new_Error ''Authentication failed: write failed'')"
    using c credential_order [of ?full SCOPES example_session "''key-from-env''"]
    by (simp add: new_Error_def)
  have t4: "snd (createSession failing_env SCOPES)
       = Inl (new_Error ''Authentication failed: Authentication timeout'')"
    using d credential_order [of failing_env SCOPES example_session "''k''"]
    by (simp add: new_Error_def)
  have t5: "snd (createSession ?oauth SCOPES) = Inr (oauthSession 1700000000000 example_tokens)"
    using e credential_order [of ?oauth SCOPES example_session "''k''"] by simp
  show ?thesis
    using a b(1,2) d(1,2) t1 t2 t3 t4 t5 f1 f2
    by (simp add: prod_eq_iff s)
qed

text \<open>
  C9 (the code at the failing input).  A session is taken to be valid exactly when its
  access token is not empty: the session holds no expiry and no clock is read, so a
  stored session with a token is returned by \<^verbatim>\<open>getSessions\<close> and by
  \<^verbatim>\<open>createSession\<close> however long ago the token was issued, and nothing is resolved
  anew.
\<close>

theorem stored_session_reused:
  "isValidSession s = (accessToken s \<noteq> [])
   \<and> getSessions (env\<lparr>stored := StoredSession s\<rparr>) = (if accessToken s \<noteq> [] then [s] else [])
   \<and> getSessions example_env = [example_session]
   \<and> createSession example_env SCOPES
       = ([StatusBar ''$(key) Gemini: Authenticating...'',
           StatusBar ''$(key) Gemini: Authenticated''],
          Inr example_session)"
proof -
  have a: "active_session example_env = Some example_session"
    by (simp add: example_env_def example_session_def active_session_def)
  show ?thesis
    by (simp add: getSessions_def getStoredSession_def createSession_active [OF a]
        updateStatusBar_def)
      (simp add: isValidSession_def example_env_def example_session_def)
qed

end
